theory Spec2Isabelle
  imports Complex_Main "HOL-Library.Multiset"
begin

section \<open>Planar points\<close>

text \<open>
  The program stores a point as a two-element numpy array of floats. The embedding takes a
  point to be a pair of reals: every arithmetic operation of the source is read as the exact
  operation on the reals, so rounding is not part of the model.
\<close>

type_synonym point = "real \<times> real"

definition padd :: "point \<Rightarrow> point \<Rightarrow> point" where
  "padd p q = (fst p + fst q, snd p + snd q)"

definition psub :: "point \<Rightarrow> point \<Rightarrow> point" where
  "psub p q = (fst p - fst q, snd p - snd q)"

definition pscale :: "point \<Rightarrow> real \<Rightarrow> point" where
  "pscale p k = (fst p * k, snd p * k)"

definition pdiv :: "point \<Rightarrow> real \<Rightarrow> point" where
  "pdiv p k = (fst p / k, snd p / k)"

definition pnorm :: "point \<Rightarrow> real" where
  "pnorm p = sqrt ((fst p)\<^sup>2 + (snd p)\<^sup>2)"

definition pdot :: "point \<Rightarrow> point \<Rightarrow> real" where
  "pdot p q = fst p * fst q + snd p * snd q"

section \<open>Geometry primitives (utils.py)\<close>

definition pol2cart :: "real \<Rightarrow> real \<Rightarrow> point" where
  "pol2cart rho phi = (rho * cos phi, rho * sin phi)"

definition radians :: "real \<Rightarrow> real" where
  "radians deg = deg * pi / 180"

definition get_circle_intersection ::
    "point \<Rightarrow> real \<Rightarrow> point \<Rightarrow> real \<Rightarrow> int \<Rightarrow> point option" where
  "get_circle_intersection p1 r1 p2 r2 chirality =
     (let d2 = (fst p1 - fst p2)\<^sup>2 + (snd p1 - snd p2)\<^sup>2;
          d = sqrt d2
      in if d > r1 + r2 \<or> d < \<bar>r1 - r2\<bar> \<or> d = 0 then None
         else
           let a = (r1\<^sup>2 - r2\<^sup>2 + d2) / (2 * d);
               h = sqrt (max 0 (r1\<^sup>2 - a\<^sup>2));
               x2 = fst p1 + a * (fst p2 - fst p1) / d;
               y2 = snd p1 + a * (snd p2 - snd p1) / d;
               dx = snd p2 - snd p1;
               dy = fst p2 - fst p1;
               x3_1 = x2 + h * dx / d;
               y3_1 = y2 - h * dy / d;
               x3_2 = x2 - h * dx / d;
               y3_2 = y2 + h * dy / d
           in Some (if chirality = 1 then (x3_1, y3_1) else (x3_2, y3_2)))"

definition dist_point_segment :: "point \<Rightarrow> point \<Rightarrow> point \<Rightarrow> real" where
  "dist_point_segment p a b =
     (let ab = psub b a;
          ap = psub p a;
          len_sq = (fst ab)\<^sup>2 + (snd ab)\<^sup>2
      in if len_sq = 0 then pnorm ap
         else
           let t = max 0 (min 1 (pdot ap ab / len_sq));
               projection = padd a (pscale ab t)
           in pnorm (psub p projection))"

text \<open>
  \<open>ccw\<close> compares two products. The model compares the exact products; the program
  compares their roundings to doubles.
\<close>

definition ccw :: "point \<Rightarrow> point \<Rightarrow> point \<Rightarrow> bool" where
  "ccw A B C \<longleftrightarrow> (snd C - snd A) * (fst B - fst A) > (snd B - snd A) * (fst C - fst A)"

definition intersect :: "point \<Rightarrow> point \<Rightarrow> point \<Rightarrow> point \<Rightarrow> bool" where
  "intersect A B C D \<longleftrightarrow> ccw A C D \<noteq> ccw B C D \<and> ccw A B C \<noteq> ccw A B D"

definition min_dist_segments :: "point \<times> point \<Rightarrow> point \<times> point \<Rightarrow> real" where
  "min_dist_segments seg1 seg2 =
     (let p1 = fst seg1; p2 = snd seg1; p3 = fst seg2; p4 = snd seg2
      in if intersect p1 p2 p3 p4 then 0
         else
           let d1 = dist_point_segment p3 p1 p2;
               d2 = dist_point_segment p4 p1 p2;
               d3 = dist_point_segment p1 p3 p4;
               d4 = dist_point_segment p2 p3 p4
           in min (min (min d1 d2) d3) d4)"

section \<open>Errors and dictionaries\<close>

text \<open>
  The exceptions the modelled code can raise. A Python dict is a map; subscripting a missing
  key raises \<open>KeyError\<close> with that key.
\<close>

datatype error = KeyError string | IndexError | ZeroDivisionError | ValueError

definition getitem :: "(string \<rightharpoonup> 'a) \<Rightarrow> string \<Rightarrow> error + 'a" where
  "getitem m k = (case m k of None \<Rightarrow> Inl (KeyError k) | Some v \<Rightarrow> Inr v)"

definition ebind :: "error + 'a \<Rightarrow> ('a \<Rightarrow> error + 'b) \<Rightarrow> error + 'b" where
  "ebind m f = (case m of Inl e \<Rightarrow> Inl e | Inr x \<Rightarrow> f x)"

type_synonym joints = "string \<rightharpoonup> point"

section \<open>Leg models (configs)\<close>

text \<open>
  The fields every \<open>LegModel\<close> has (leg\_interface.py): the two calibration offsets in
  radians and the collision threshold. The display name and the slider table
  \<open>parameters\<close> are not read by the kinematics and are left out.
\<close>

record leg_model =
  offset_t1 :: real
  offset_t2 :: real
  collision_threshold :: real

subsection \<open>SerialLeg (serial.py)\<close>

record serial_leg = leg_model +
  l1 :: real
  l2 :: real
  base_pos :: point

definition SerialLeg_init :: serial_leg where
  "SerialLeg_init =
     \<lparr> offset_t1 = 0, offset_t2 = 0, collision_threshold = 10,
       l1 = 50, l2 = 95, base_pos = (0, 0) \<rparr>"

definition serial_update_params ::
    "(string \<rightharpoonup> real) \<Rightarrow> serial_leg \<Rightarrow> (error + unit) \<times> serial_leg" where
  "serial_update_params params s =
     (case getitem params ''L1 (S1->Knee)'' of
        Inl e \<Rightarrow> (Inl e, s)
      | Inr v1 \<Rightarrow>
          (let s1 = s\<lparr>l1 := v1\<rparr> in
           case getitem params ''L2 (Knee->Foot)'' of
             Inl e \<Rightarrow> (Inl e, s1)
           | Inr v2 \<Rightarrow> (Inr (), s1\<lparr>l2 := v2\<rparr>)))"

definition serial_forward_kinematics ::
    "serial_leg \<Rightarrow> real \<Rightarrow> real \<Rightarrow> point option \<times> joints" where
  "serial_forward_kinematics s theta1_deg theta2_deg =
     (let theta1 = radians theta1_deg + offset_t1 s;
          theta2 = radians theta2_deg + offset_t2 s;
          point_knee = padd (base_pos s) (pol2cart (l1 s) theta1);
          point_foot = padd point_knee (pol2cart (l2 s) (theta1 - theta2))
      in (Some point_foot,
          [''Base'' \<mapsto> base_pos s, ''Knee'' \<mapsto> point_knee, ''Foot'' \<mapsto> point_foot]))"

definition serial_check_collisions :: "serial_leg \<Rightarrow> joints \<Rightarrow> error + bool" where
  "serial_check_collisions s joints =
     ebind (getitem joints ''Foot'') (\<lambda>point_foot.
     ebind (getitem joints ''Base'') (\<lambda>point_base.
       if pnorm (psub point_foot point_base) < collision_threshold s then Inr True
       else Inr False))"

subsection \<open>PantographLeg (pantograph.py)\<close>

text \<open>
  \<open>np.arctan2\<close> and \<open>np.degrees\<close>, on the reals. Signed zeros are not part of the
  model: \<open>arctan2 0 x\<close> is \<open>pi\<close> for negative \<open>x\<close>.
\<close>

definition arctan2 :: "real \<Rightarrow> real \<Rightarrow> real" where
  "arctan2 y x =
     (if x > 0 then arctan (y / x)
      else if x < 0 then (if y \<ge> 0 then arctan (y / x) + pi else arctan (y / x) - pi)
      else if y > 0 then pi / 2
      else if y < 0 then - (pi / 2)
      else 0)"

definition degrees :: "real \<Rightarrow> real" where
  "degrees r = r * 180 / pi"

record pantograph_leg = leg_model +
  l_thigh :: real
  l_crank :: real
  l_shin :: real
  servo1_pos :: point
  servo2_pos :: point

definition PantographLeg_init :: pantograph_leg where
  "PantographLeg_init =
     \<lparr> offset_t1 = 0, offset_t2 = 0, collision_threshold = 10,
       l_thigh = 95, l_crank = 10, l_shin = 95,
       servo1_pos = (- 15, - 10), servo2_pos = (0, 0) \<rparr>"

definition pantograph_update_params ::
    "(string \<rightharpoonup> real) \<Rightarrow> pantograph_leg \<Rightarrow> (error + unit) \<times> pantograph_leg" where
  "pantograph_update_params params s =
     (case getitem params ''L_Thigh (S2->Knee)'' of
        Inl e \<Rightarrow> (Inl e, s)
      | Inr v1 \<Rightarrow>
          (let s1 = s\<lparr>l_thigh := v1\<rparr> in
           case getitem params ''L_Crank (S2->Link)'' of
             Inl e \<Rightarrow> (Inl e, s1)
           | Inr v2 \<Rightarrow>
               (let s2 = s1\<lparr>l_crank := v2\<rparr> in
                case getitem params ''L_Shin (Knee->Foot)'' of
                  Inl e \<Rightarrow> (Inl e, s2)
                | Inr v3 \<Rightarrow> (Inr (), s2\<lparr>l_shin := v3\<rparr>))))"

text \<open>
  The failure branch returns \<open>None, {}\<close>: no foot point and the empty dict. The guard is
  \<open>norm == 0\<close>, unlike the five-bar models below. The model computes
  \<open>point_mount - point_knee\<close> exactly; the program computes it from rounded sums.
\<close>

definition pantograph_forward_kinematics ::
    "pantograph_leg \<Rightarrow> real \<Rightarrow> real \<Rightarrow> point option \<times> joints" where
  "pantograph_forward_kinematics s theta1_deg theta2_deg =
     (let theta1 = radians theta1_deg + offset_t1 s;
          theta2 = radians theta2_deg + offset_t2 s;
          vec_thigh = pol2cart (l_thigh s) theta1;
          point_knee = padd (servo2_pos s) vec_thigh;
          point_thigh_connect = padd (servo2_pos s) (pol2cart 35 theta1);
          vec_crank = pol2cart (l_crank s) theta2;
          point_crank = padd (servo2_pos s) vec_crank;
          point_mount = padd point_crank vec_thigh;
          vec_shin_dir = psub point_mount point_knee;
          norm = pnorm vec_shin_dir
      in if norm = 0 then (None, Map.empty)
         else
           let unit_shin = pdiv vec_shin_dir norm;
               point_foot = padd point_knee (pscale unit_shin (l_shin s))
           in (Some point_foot,
               [''S1'' \<mapsto> servo1_pos s, ''S2'' \<mapsto> servo2_pos s, ''Knee'' \<mapsto> point_knee,
                ''CrankTip'' \<mapsto> point_crank, ''Mount'' \<mapsto> point_mount,
                ''Foot'' \<mapsto> point_foot, ''ThighConnect'' \<mapsto> point_thigh_connect]))"

definition pantograph_hits_servo :: "pantograph_leg \<Rightarrow> point \<times> point \<Rightarrow> point \<Rightarrow> bool" where
  "pantograph_hits_servo s segment servo_pos =
     (let p1 = fst segment; p2 = snd segment
      in if pnorm (psub p1 servo_pos) < 1 / 1000 \<or> pnorm (psub p2 servo_pos) < 1 / 1000
         then False
         else dist_point_segment servo_pos p1 p2 < collision_threshold s)"

text \<open>
  \<open>check_collisions\<close> of the pantograph never calls \<open>_hits_servo\<close>: it reads three
  joints and applies the three angular limits only.
\<close>

definition pantograph_check_collisions :: "pantograph_leg \<Rightarrow> joints \<Rightarrow> error + bool" where
  "pantograph_check_collisions s joints =
     ebind (getitem joints ''Knee'') (\<lambda>knee.
     ebind (getitem joints ''S2'') (\<lambda>s2.
     ebind (getitem joints ''CrankTip'') (\<lambda>crank_tip.
     ebind (getitem joints ''S2'') (\<lambda>s2'.
       let vec_thigh = psub knee s2;
           vec_crank = psub crank_tip s2';
           ang_s1 = degrees (arctan2 (snd vec_thigh) (fst vec_thigh));
           ang_s2 = degrees (arctan2 (snd vec_crank) (fst vec_crank))
       in if ang_s1 < 80 then Inr True
          else if ang_s1 - ang_s2 > 170 then Inr True
          else if ang_s2 > ang_s1 - 10 then Inr True
          else Inr False))))"

subsection \<open>FiveBarRearLeg and FiveBarFrontLeg (fivebar.py)\<close>

text \<open>
  Both classes have the same fields; they differ in the dictionary keys read by
  \<open>update_params\<close>, in the default lengths and in the topology.
\<close>

record fivebar_leg = leg_model +
  l1 :: real
  l2 :: real
  l3 :: real
  l4 :: real
  l5 :: real
  servo1_pos :: point
  servo2_pos :: point

definition FiveBarRearLeg_init :: fivebar_leg where
  "FiveBarRearLeg_init =
     \<lparr> offset_t1 = 0, offset_t2 = 0, collision_threshold = 10,
       l1 = 45, l2 = 45, l3 = 50, l4 = 45, l5 = 95,
       servo1_pos = (- 15, - 10), servo2_pos = (0, 0) \<rparr>"

definition FiveBarFrontLeg_init :: fivebar_leg where
  "FiveBarFrontLeg_init =
     \<lparr> offset_t1 = 0, offset_t2 = 0, collision_threshold = 10,
       l1 = 45, l2 = 45, l3 = 50, l4 = 45, l5 = 95,
       servo1_pos = (- 15, - 10), servo2_pos = (0, 0) \<rparr>"

text \<open>
  The five assignments of \<open>update_params\<close> run in order; a missing key raises at its
  lookup, and the assignments already made stay in the object. The model returns the outcome
  together with the state the object is left in.
\<close>

definition fivebar_rear_update_params ::
    "(string \<rightharpoonup> real) \<Rightarrow> fivebar_leg \<Rightarrow> (error + unit) \<times> fivebar_leg" where
  "fivebar_rear_update_params params s =
     (case getitem params ''L1 (S1->A)'' of
        Inl e \<Rightarrow> (Inl e, s)
      | Inr v1 \<Rightarrow>
     (let s1 = s\<lparr>l1 := v1\<rparr> in
      case getitem params ''L2 (A->B)'' of
        Inl e \<Rightarrow> (Inl e, s1)
      | Inr v2 \<Rightarrow>
     (let s2 = s1\<lparr>l2 := v2\<rparr> in
      case getitem params ''L3 (S2->C)'' of
        Inl e \<Rightarrow> (Inl e, s2)
      | Inr v3 \<Rightarrow>
     (let s3 = s2\<lparr>l3 := v3\<rparr> in
      case getitem params ''L4 (B->C)'' of
        Inl e \<Rightarrow> (Inl e, s3)
      | Inr v4 \<Rightarrow>
     (let s4 = s3\<lparr>l4 := v4\<rparr> in
      case getitem params ''L5 (Ext. C)'' of
        Inl e \<Rightarrow> (Inl e, s4)
      | Inr v5 \<Rightarrow> (Inr (), s4\<lparr>l5 := v5\<rparr>))))))"

definition fivebar_front_update_params ::
    "(string \<rightharpoonup> real) \<Rightarrow> fivebar_leg \<Rightarrow> (error + unit) \<times> fivebar_leg" where
  "fivebar_front_update_params params s =
     (case getitem params ''L1 (S1->A)'' of
        Inl e \<Rightarrow> (Inl e, s)
      | Inr v1 \<Rightarrow>
     (let s1 = s\<lparr>l1 := v1\<rparr> in
      case getitem params ''L2 (S2->B)'' of
        Inl e \<Rightarrow> (Inl e, s1)
      | Inr v2 \<Rightarrow>
     (let s2 = s1\<lparr>l2 := v2\<rparr> in
      case getitem params ''L3 (B->C)'' of
        Inl e \<Rightarrow> (Inl e, s2)
      | Inr v3 \<Rightarrow>
     (let s3 = s2\<lparr>l3 := v3\<rparr> in
      case getitem params ''L4 (A->C)'' of
        Inl e \<Rightarrow> (Inl e, s3)
      | Inr v4 \<Rightarrow>
     (let s4 = s3\<lparr>l4 := v4\<rparr> in
      case getitem params ''L5 (Ext. C)'' of
        Inl e \<Rightarrow> (Inl e, s4)
      | Inr v5 \<Rightarrow> (Inr (), s4\<lparr>l5 := v5\<rparr>))))))"

definition fivebar_rear_forward_kinematics ::
    "fivebar_leg \<Rightarrow> real \<Rightarrow> real \<Rightarrow> point option \<times> joints" where
  "fivebar_rear_forward_kinematics s theta1_deg theta2_deg =
     (let theta1 = radians theta1_deg + offset_t1 s;
          theta2 = radians theta2_deg + offset_t2 s;
          point_a = padd (servo1_pos s) (pol2cart (l1 s) theta1);
          point_c = padd (servo2_pos s) (pol2cart (l3 s) theta2)
      in case get_circle_intersection point_a (l2 s) point_c (l4 s) (- 1) of
           None \<Rightarrow> (None, Map.empty)
         | Some point_b \<Rightarrow>
             (let vec_cb = psub point_c point_b;
                  norm = pnorm vec_cb
              in if norm < 1 / 1000000 then (None, Map.empty)
                 else
                   let unit_vector = pdiv vec_cb norm;
                       point_foot = padd point_c (pscale unit_vector (l5 s))
                   in (Some point_foot,
                       [''S1'' \<mapsto> servo1_pos s, ''S2'' \<mapsto> servo2_pos s, ''A'' \<mapsto> point_a,
                        ''B'' \<mapsto> point_b, ''C'' \<mapsto> point_c, ''Foot'' \<mapsto> point_foot])))"

definition fivebar_front_forward_kinematics ::
    "fivebar_leg \<Rightarrow> real \<Rightarrow> real \<Rightarrow> point option \<times> joints" where
  "fivebar_front_forward_kinematics s theta1_deg theta2_deg =
     (let theta1 = radians theta1_deg + offset_t1 s;
          theta2 = radians theta2_deg + offset_t2 s;
          point_a = padd (servo1_pos s) (pol2cart (l1 s) theta1);
          point_b = padd (servo2_pos s) (pol2cart (l2 s) theta2)
      in case get_circle_intersection point_a (l4 s) point_b (l3 s) (- 1) of
           None \<Rightarrow> (None, Map.empty)
         | Some point_c \<Rightarrow>
             (let vec_ca = psub point_c point_a;
                  norm = pnorm vec_ca
              in if norm < 1 / 1000000 then (None, Map.empty)
                 else
                   let unit_vector = pdiv vec_ca norm;
                       point_foot = padd point_c (pscale unit_vector (l5 s))
                   in (Some point_foot,
                       [''S1'' \<mapsto> servo1_pos s, ''S2'' \<mapsto> servo2_pos s, ''A'' \<mapsto> point_a,
                        ''B'' \<mapsto> point_b, ''C'' \<mapsto> point_c, ''Foot'' \<mapsto> point_foot])))"

text \<open>
  \<open>_hits_servo\<close> is the same in both five-bar classes: a segment that starts or ends
  within \<open>1e-3\<close> of the servo is skipped.
\<close>

definition hits_servo :: "fivebar_leg \<Rightarrow> point \<times> point \<Rightarrow> point \<Rightarrow> bool" where
  "hits_servo s segment servo_pos =
     (let p1 = fst segment; p2 = snd segment
      in if pnorm (psub p1 servo_pos) < 1 / 1000 \<or> pnorm (psub p2 servo_pos) < 1 / 1000
         then False
         else dist_point_segment servo_pos p1 p2 < collision_threshold s)"

text \<open>
  The nested loop \<open>for seg in segments: for servo in servos: if hits: return True\<close>:
  the inner loop over the servos, then the outer loop over the segments. \<open>True\<close> means the
  function has returned \<open>True\<close>.
\<close>

fun servo_loop :: "fivebar_leg \<Rightarrow> point \<times> point \<Rightarrow> point list \<Rightarrow> bool" where
  "servo_loop s seg [] = False"
| "servo_loop s seg (servo # servos) =
     (if hits_servo s seg servo then True else servo_loop s seg servos)"

fun segment_loop :: "fivebar_leg \<Rightarrow> (point \<times> point) list \<Rightarrow> point list \<Rightarrow> bool" where
  "segment_loop s [] servos = False"
| "segment_loop s (seg # segments) servos =
     (if servo_loop s seg servos then True else segment_loop s segments servos)"

definition fivebar_rear_check_collisions :: "fivebar_leg \<Rightarrow> joints \<Rightarrow> error + bool" where
  "fivebar_rear_check_collisions s joints =
     ebind (getitem joints ''S1'') (\<lambda>j_s1.
     ebind (getitem joints ''A'') (\<lambda>j_a.
     ebind (getitem joints ''S2'') (\<lambda>j_s2.
     ebind (getitem joints ''C'') (\<lambda>j_c.
     ebind (getitem joints ''B'') (\<lambda>j_b.
     ebind (getitem joints ''Foot'') (\<lambda>j_foot.
       let seg_s1_a = (j_s1, j_a);
           seg_s2_c = (j_s2, j_c);
           seg_a_b = (j_a, j_b);
           seg_b_c = (j_b, j_c);
           seg_c_foot = (j_c, j_foot);
           segments = [seg_s1_a, seg_s2_c, seg_a_b, seg_b_c, seg_c_foot];
           servos = [j_s1, j_s2]
       in if segment_loop s segments servos then Inr True
          else if min_dist_segments seg_s1_a seg_s2_c < collision_threshold s then Inr True
          else if min_dist_segments seg_s1_a seg_b_c < collision_threshold s then Inr True
          else if min_dist_segments seg_s2_c seg_a_b < collision_threshold s then Inr True
          else Inr False))))))"

definition fivebar_front_check_collisions :: "fivebar_leg \<Rightarrow> joints \<Rightarrow> error + bool" where
  "fivebar_front_check_collisions s joints =
     ebind (getitem joints ''S1'') (\<lambda>j_s1.
     ebind (getitem joints ''A'') (\<lambda>j_a.
     ebind (getitem joints ''S2'') (\<lambda>j_s2.
     ebind (getitem joints ''B'') (\<lambda>j_b.
     ebind (getitem joints ''C'') (\<lambda>j_c.
     ebind (getitem joints ''Foot'') (\<lambda>j_foot.
       let seg_s1_a = (j_s1, j_a);
           seg_s2_b = (j_s2, j_b);
           seg_a_c = (j_a, j_c);
           seg_b_c = (j_b, j_c);
           seg_c_foot = (j_c, j_foot);
           segments = [seg_s1_a, seg_s2_b, seg_a_c, seg_b_c, seg_c_foot];
           servos = [j_s1, j_s2]
       in if segment_loop s segments servos then Inr True
          else if min_dist_segments seg_s1_a seg_s2_b < collision_threshold s then Inr True
          else if min_dist_segments seg_s1_a seg_b_c < collision_threshold s then Inr True
          else if min_dist_segments seg_s2_b seg_a_c < collision_threshold s then Inr True
          else Inr False))))))"

section \<open>Alpha-shape boundary (utils.py, calculate\_concave\_hull)\<close>

text \<open>
  The triangulation comes from \<open>scipy.spatial.Delaunay\<close>, which is not part of the
  repository. The model takes its result, the list \<open>tri.simplices\<close> of vertex-index
  triples, as the parameter \<open>simplices\<close>. An index outside the point array raises
  \<open>IndexError\<close>, and \<open>1.0 / alpha_threshold\<close> raises \<open>ZeroDivisionError\<close> for a zero
  threshold; the division is reached only for a triangle that passed the area test.

  \<open>boundary_edges\<close> is a Python set of sorted index pairs. The returned \<open>lines\<close> list
  enumerates that set in an unspecified order, so it is modelled as a multiset of segments.
\<close>

definition simplex_edges :: "nat \<times> nat \<times> nat \<Rightarrow> (nat \<times> nat) list" where
  "simplex_edges simplex =
     (case simplex of (i0, i1, i2) \<Rightarrow>
        [(min i0 i1, max i0 i1), (min i1 i2, max i1 i2), (min i2 i0, max i2 i0)])"

fun edge_loop :: "(nat \<times> nat) list \<Rightarrow> (nat \<times> nat) set \<Rightarrow> (nat \<times> nat) set" where
  "edge_loop [] boundary_edges = boundary_edges"
| "edge_loop (edge # edges) boundary_edges =
     (if edge \<in> boundary_edges then edge_loop edges (boundary_edges - {edge})
      else edge_loop edges (insert edge boundary_edges))"

fun simplex_loop ::
    "point list \<Rightarrow> real \<Rightarrow> (nat \<times> nat \<times> nat) list \<Rightarrow> real \<times> (nat \<times> nat) set \<Rightarrow>
     error + real \<times> (nat \<times> nat) set" where
  "simplex_loop points alpha_threshold [] st = Inr st"
| "simplex_loop points alpha_threshold (simplex # rest) (total_area, boundary_edges) =
     (case simplex of (i0, i1, i2) \<Rightarrow>
        if \<not> (i0 < length points \<and> i1 < length points \<and> i2 < length points) then Inl IndexError
        else
          let pa = points ! i0; pb = points ! i1; pc = points ! i2;
              a = pnorm (psub pa pb);
              b = pnorm (psub pb pc);
              c = pnorm (psub pc pa);
              s = (a + b + c) / 2;
              tri_area = sqrt (max 0 (s * (s - a) * (s - b) * (s - c)))
          in if tri_area < 1 / 100000
             then simplex_loop points alpha_threshold rest (total_area, boundary_edges)
             else
               let circum_r = (a * b * c) / (4 * tri_area)
               in if alpha_threshold = 0 then Inl ZeroDivisionError
                  else if circum_r < 1 / alpha_threshold
                  then simplex_loop points alpha_threshold rest
                         (total_area + tri_area, edge_loop (simplex_edges simplex) boundary_edges)
                  else simplex_loop points alpha_threshold rest (total_area, boundary_edges))"

definition calculate_concave_hull ::
    "point list \<Rightarrow> real \<Rightarrow> (nat \<times> nat \<times> nat) list \<Rightarrow> error + real \<times> (point \<times> point) multiset" where
  "calculate_concave_hull points alpha_threshold simplices =
     (if length points < 4 then Inr (0, {#})
      else
        ebind (simplex_loop points alpha_threshold simplices (0, {})) (\<lambda>(total_area, boundary_edges).
          Inr (total_area, image_mset (\<lambda>(i, j). (points ! i, points ! j)) (mset_set boundary_edges))))"

section \<open>Workspace scan (leg\_interface.py, get\_workspace)\<close>

text \<open>
  \<open>np.linspace start stop num\<close>: \<open>num\<close> evenly spaced samples with both end points; a
  negative \<open>num\<close> raises \<open>ValueError\<close>, and a single sample is \<open>start\<close>.
\<close>

definition linspace :: "real \<Rightarrow> real \<Rightarrow> int \<Rightarrow> error + real list" where
  "linspace start stop num =
     (if num < 0 then Inl ValueError
      else if num = 1 then Inr [start]
      else Inr (map (\<lambda>i. start + real i * ((stop - start) / real (nat num - 1))) [0..<nat num]))"

text \<open>
  The two abstract methods that \<open>get_workspace\<close> calls on \<open>self\<close>, as a record of
  functions; each leg gives its own pair.
\<close>

record leg_ops =
  forward_kinematics :: "real \<Rightarrow> real \<Rightarrow> point option \<times> joints"
  check_collisions :: "joints \<Rightarrow> error + bool"

definition serial_ops :: "serial_leg \<Rightarrow> leg_ops" where
  "serial_ops s = \<lparr> forward_kinematics = serial_forward_kinematics s,
                    check_collisions = serial_check_collisions s \<rparr>"

definition pantograph_ops :: "pantograph_leg \<Rightarrow> leg_ops" where
  "pantograph_ops s = \<lparr> forward_kinematics = pantograph_forward_kinematics s,
                        check_collisions = pantograph_check_collisions s \<rparr>"

definition fivebar_rear_ops :: "fivebar_leg \<Rightarrow> leg_ops" where
  "fivebar_rear_ops s = \<lparr> forward_kinematics = fivebar_rear_forward_kinematics s,
                          check_collisions = fivebar_rear_check_collisions s \<rparr>"

definition fivebar_front_ops :: "fivebar_leg \<Rightarrow> leg_ops" where
  "fivebar_front_ops s = \<lparr> forward_kinematics = fivebar_front_forward_kinematics s,
                           check_collisions = fivebar_front_check_collisions s \<rparr>"

text \<open>
  The inner loop over \<open>theta2\<close> and the outer loop over \<open>theta1\<close>, with the list
  \<open>points\<close> as the accumulator. An exception raised by \<open>check_collisions\<close> ends the scan.
\<close>

fun theta2_loop :: "leg_ops \<Rightarrow> real \<Rightarrow> real list \<Rightarrow> point list \<Rightarrow> error + point list" where
  "theta2_loop m theta1 [] points = Inr points"
| "theta2_loop m theta1 (theta2 # rest) points =
     (case forward_kinematics m theta1 theta2 of
        (None, joints) \<Rightarrow> theta2_loop m theta1 rest points
      | (Some end_effector, joints) \<Rightarrow>
          (case check_collisions m joints of
             Inl e \<Rightarrow> Inl e
           | Inr collides \<Rightarrow>
               if \<not> collides then theta2_loop m theta1 rest (points @ [end_effector])
               else theta2_loop m theta1 rest points))"

fun theta1_loop :: "leg_ops \<Rightarrow> real list \<Rightarrow> real list \<Rightarrow> point list \<Rightarrow> error + point list" where
  "theta1_loop m [] scan_range points = Inr points"
| "theta1_loop m (theta1 # rest) scan_range points =
     (case theta2_loop m theta1 scan_range points of
        Inl e \<Rightarrow> Inl e
      | Inr points' \<Rightarrow> theta1_loop m rest scan_range points')"

definition get_workspace ::
    "leg_ops \<Rightarrow> (point list \<Rightarrow> (nat \<times> nat \<times> nat) list) \<Rightarrow> int \<Rightarrow>
     error + real list \<times> real list \<times> real \<times> (point \<times> point) multiset" where
  "get_workspace m delaunay resolution =
     ebind (linspace 0 180 resolution) (\<lambda>scan_range.
     ebind (theta1_loop m scan_range scan_range []) (\<lambda>points.
       if points = [] then Inr ([], [], 0, {#})
       else
         ebind (calculate_concave_hull points (4 / 100) (delaunay points)) (\<lambda>(area, hull_lines).
           Inr (map fst points, map snd points, area, hull_lines))))"

section \<open>Largest centred ellipse (utils.py, calculate\_max\_centered\_ellipse)\<close>

text \<open>
  \<open>np.arange start stop step\<close> has \<open>ceil ((stop - start) / step)\<close> elements
  \<open>start + i * step\<close>; Python's \<open>int\<close> truncates towards zero.
\<close>

definition arange :: "real \<Rightarrow> real \<Rightarrow> real \<Rightarrow> real list" where
  "arange start stop step =
     map (\<lambda>i. start + real i * step) [0..<nat \<lceil>(stop - start) / step\<rceil>]"

definition py_int :: "real \<Rightarrow> int" where
  "py_int x = (if 0 \<le> x then \<lfloor>x\<rfloor> else \<lceil>x\<rceil>)"

text \<open>
  The loop of \<open>get_scan_limits_at_y\<close> that collects the crossings of the horizontal line
  at height \<open>y\<close> with the boundary segments.
\<close>

fun collect_intersections :: "real \<Rightarrow> (point \<times> point) list \<Rightarrow> real list \<Rightarrow> real list" where
  "collect_intersections y [] intersections = intersections"
| "collect_intersections y ((p1, p2) # hull_lines) intersections =
     (if (snd p1 \<le> y \<and> y \<le> snd p2) \<or> (snd p2 \<le> y \<and> y \<le> snd p1) then
        (if \<bar>snd p2 - snd p1\<bar> < 1 / 100000 then collect_intersections y hull_lines intersections
         else
           let t = (y - snd p1) / (snd p2 - snd p1);
               x_inter = fst p1 + t * (fst p2 - fst p1)
           in collect_intersections y hull_lines (intersections @ [x_inter]))
      else collect_intersections y hull_lines intersections)"

definition get_scan_limits_at_y :: "real \<Rightarrow> (point \<times> point) list \<Rightarrow> real \<times> real" where
  "get_scan_limits_at_y y hull_lines =
     (let intersections = collect_intersections y hull_lines []
      in if intersections = [] then (0, 0)
         else
           let neg_x = filter (\<lambda>x. x < - (1 / 10)) intersections;
               pos_x = filter (\<lambda>x. x > 1 / 10) intersections
           in if neg_x = [] \<or> pos_x = [] then (0, 0)
              else
                let limit_left = Max (set neg_x);
                    limit_right = Min (set pos_x)
                in (limit_left, limit_right))"

text \<open>One entry of \<open>profile_radius\<close>: the body of the first loop over \<open>scan_ys\<close>.\<close>

definition profile_radius_at :: "(point \<times> point) list \<Rightarrow> real \<Rightarrow> real" where
  "profile_radius_at hull_lines y =
     (case get_scan_limits_at_y y hull_lines of (lim_l, lim_r) \<Rightarrow>
        if lim_l = 0 \<and> lim_r = 0 then 0 else min \<bar>lim_l\<bar> \<bar>lim_r\<bar>)"

text \<open>
  The innermost loop over the rows \<open>j\<close> that a candidate ellipse covers; \<open>True\<close> means
  \<open>collision\<close> was set and the loop left by \<open>break\<close>.
\<close>

fun collision_loop ::
    "real list \<Rightarrow> real list \<Rightarrow> real \<Rightarrow> real \<Rightarrow> real \<Rightarrow> nat list \<Rightarrow> bool" where
  "collision_loop scan_ys profile_radius center_y w_cand half_h [] = False"
| "collision_loop scan_ys profile_radius center_y w_cand half_h (j # js) =
     (let y_curr = scan_ys ! j;
          dy = \<bar>y_curr - center_y\<bar>;
          term0 = 1 - (dy / half_h)\<^sup>2;
          term = (if term0 < 0 then 0 else term0);
          req_half_width = (w_cand / 2) * sqrt term
      in if req_half_width > profile_radius ! j then True
         else collision_loop scan_ys profile_radius center_y w_cand half_h js)"

text \<open>
  The loop over the candidate widths of one centre; the result is \<open>valid_w\<close>, which stays
  \<open>0\<close> when the loop ends or breaks without an accepted width.
\<close>

fun width_loop ::
    "real list \<Rightarrow> real list \<Rightarrow> real \<Rightarrow> real \<Rightarrow> real \<Rightarrow> real \<Rightarrow> real \<Rightarrow> real list \<Rightarrow> real" where
  "width_loop scan_ys profile_radius aspect_ratio min_y resolution center_y best_width [] = 0"
| "width_loop scan_ys profile_radius aspect_ratio min_y resolution center_y best_width (w_cand # ws) =
     (if w_cand \<le> best_width then 0
      else
        let h_cand = w_cand * aspect_ratio;
            half_h = h_cand / 2;
            idx_start = py_int ((center_y - half_h - min_y) / resolution);
            idx_end = py_int ((center_y + half_h - min_y) / resolution)
        in if idx_start < 0 \<or> idx_end \<ge> int (length scan_ys)
           then width_loop scan_ys profile_radius aspect_ratio min_y resolution center_y best_width ws
           else if \<not> collision_loop scan_ys profile_radius center_y w_cand half_h
                        [nat idx_start..<nat (idx_end + 1)]
           then w_cand
           else width_loop scan_ys profile_radius aspect_ratio min_y resolution center_y best_width ws)"

text \<open>The loop over the candidate centres, with \<open>(best_width, best_y)\<close> as its state.\<close>

fun center_loop ::
    "real list \<Rightarrow> real list \<Rightarrow> real \<Rightarrow> real \<Rightarrow> real \<Rightarrow> nat list \<Rightarrow> real \<times> real \<Rightarrow> real \<times> real" where
  "center_loop scan_ys profile_radius aspect_ratio min_y resolution [] st = st"
| "center_loop scan_ys profile_radius aspect_ratio min_y resolution (i # is) (best_width, best_y) =
     (let center_y = scan_ys ! i;
          max_possible_r_at_center = profile_radius ! i
      in if max_possible_r_at_center < 1
         then center_loop scan_ys profile_radius aspect_ratio min_y resolution is (best_width, best_y)
         else
           let current_w = max_possible_r_at_center * 2;
               test_widths = arange current_w 0 (- 2);
               valid_w = width_loop scan_ys profile_radius aspect_ratio min_y resolution
                           center_y best_width test_widths
           in if valid_w > best_width
              then center_loop scan_ys profile_radius aspect_ratio min_y resolution is (valid_w, center_y)
              else center_loop scan_ys profile_radius aspect_ratio min_y resolution is
                     (best_width, best_y))"

text \<open>
  A boundary segment is a pair of points. The division by \<open>half_h\<close> is a numpy division;
  it is only reached with a positive divisor when \<open>aspect_ratio\<close> is positive, which is the
  case for the default \<open>0.5\<close>, the only value the program uses.
\<close>

definition calculate_max_centered_ellipse ::
    "(point \<times> point) list \<Rightarrow> real \<Rightarrow> real \<times> real \<times> real" where
  "calculate_max_centered_ellipse hull_lines aspect_ratio =
     (if hull_lines = [] then (0, 0, 0)
      else
        let ys = concat (map (\<lambda>line. [snd (fst line), snd (snd line)]) hull_lines)
        in if ys = [] then (0, 0, 0)
           else
             let min_y = Min (set ys);
                 max_y = Max (set ys);
                 resolution = 1;
                 scan_ys = arange min_y max_y resolution;
                 n_points = length scan_ys;
                 profile_radius = map (profile_radius_at hull_lines) scan_ys
             in case center_loop scan_ys profile_radius aspect_ratio min_y resolution
                       [0..<n_points] (0, 0) of
                  (best_width, best_y) \<Rightarrow> (best_y, best_width, best_width * aspect_ratio))"

section \<open>Notions used to state the properties\<close>

text \<open>
  Four points are collinear when one line \<open>a * x + b * y = c\<close> (with \<open>a\<close>, \<open>b\<close> not both
  zero) passes through all of them. Coinciding points are allowed.
\<close>

definition collinear4 :: "point \<Rightarrow> point \<Rightarrow> point \<Rightarrow> point \<Rightarrow> bool" where
  "collinear4 A B C D \<longleftrightarrow>
     (\<exists>a b c. (a \<noteq> 0 \<or> b \<noteq> 0) \<and>
        a * fst A + b * snd A = c \<and> a * fst B + b * snd B = c \<and>
        a * fst C + b * snd C = c \<and> a * fst D + b * snd D = c)"

text \<open>
  The mirror image of \<open>q\<close> in the line through \<open>p1\<close> and \<open>p2\<close>: twice the foot of the
  perpendicular from \<open>q\<close>, minus \<open>q\<close>.
\<close>

definition reflect_across :: "point \<Rightarrow> point \<Rightarrow> point \<Rightarrow> point" where
  "reflect_across p1 p2 q =
     (let u = psub p2 p1;
          t = pdot (psub q p1) u / pdot u u;
          foot = padd p1 (pscale u t)
      in psub (pscale foot 2) q)"

text \<open>
  The point that \<open>get_circle_intersection\<close> builds from the chord midpoint, with the sign
  \<open>s\<close> of the perpendicular offset as a parameter (\<open>1\<close> for chirality 1, \<open>- 1\<close> otherwise).
\<close>

definition circle_candidate :: "point \<Rightarrow> point \<Rightarrow> real \<Rightarrow> real \<Rightarrow> real \<Rightarrow> real \<Rightarrow> point" where
  "circle_candidate p1 p2 d a h s =
     (fst p1 + a * (fst p2 - fst p1) / d + s * h * (snd p2 - snd p1) / d,
      snd p1 + a * (snd p2 - snd p1) / d - s * h * (fst p2 - fst p1) / d)"

text \<open>
  Intermediate values of the forward kinematics, named so that properties can refer to them:
  the two driven elbows of each five-bar leg and the shin direction of the pantograph
  (\<open>vec_shin_dir\<close> in the source), each computed as the source computes it.
\<close>

definition rear_point_a :: "fivebar_leg \<Rightarrow> real \<Rightarrow> point" where
  "rear_point_a s theta1_deg = padd (servo1_pos s) (pol2cart (l1 s) (radians theta1_deg + offset_t1 s))"

definition rear_point_c :: "fivebar_leg \<Rightarrow> real \<Rightarrow> point" where
  "rear_point_c s theta2_deg = padd (servo2_pos s) (pol2cart (l3 s) (radians theta2_deg + offset_t2 s))"

definition front_point_a :: "fivebar_leg \<Rightarrow> real \<Rightarrow> point" where
  "front_point_a s theta1_deg = padd (servo1_pos s) (pol2cart (l1 s) (radians theta1_deg + offset_t1 s))"

definition front_point_b :: "fivebar_leg \<Rightarrow> real \<Rightarrow> point" where
  "front_point_b s theta2_deg = padd (servo2_pos s) (pol2cart (l2 s) (radians theta2_deg + offset_t2 s))"

definition pantograph_vec_shin_dir :: "pantograph_leg \<Rightarrow> real \<Rightarrow> real \<Rightarrow> point" where
  "pantograph_vec_shin_dir s theta1_deg theta2_deg =
     (let theta1 = radians theta1_deg + offset_t1 s;
          theta2 = radians theta2_deg + offset_t2 s;
          vec_thigh = pol2cart (l_thigh s) theta1;
          point_knee = padd (pantograph_leg.servo2_pos s) vec_thigh;
          point_crank = padd (pantograph_leg.servo2_pos s) (pol2cart (l_crank s) theta2);
          point_mount = padd point_crank vec_thigh
      in psub point_mount point_knee)"

text \<open>
  What one joint-angle combination contributes to the point cloud: the foot point when the
  forward kinematics returns one and \<open>check_collisions\<close> answers \<open>False\<close>, nothing
  otherwise.
\<close>

definition scan_keep :: "leg_ops \<Rightarrow> real \<times> real \<Rightarrow> point list" where
  "scan_keep m tt =
     (case forward_kinematics m (fst tt) (snd tt) of
        (None, joints) \<Rightarrow> []
      | (Some p, joints) \<Rightarrow> if check_collisions m joints = Inr False then [p] else [])"

text \<open>
  A leg whose \<open>check_collisions\<close> does not raise on any joint set that its own forward
  kinematics returns together with a foot point.
\<close>

definition cc_safe :: "leg_ops \<Rightarrow> bool" where
  "cc_safe m \<longleftrightarrow>
     (\<forall>t1 t2 p j. forward_kinematics m t1 t2 = (Some p, j) \<longrightarrow> (\<exists>b. check_collisions m j = Inr b))"

text \<open>
  The quantities of one triangle of the triangulation, as the loop body computes them: the
  Heron area (clamped at \<open>0\<close> under the root) and the circumradius \<open>a * b * c / (4 * area)\<close>.
  A triangle is retained when its area is at least \<open>1e-5\<close> and its circumradius is strictly
  below \<open>1 / alpha_threshold\<close>. \<open>triangles_with_edge e\<close> counts the triangles of a list
  that have the sorted index pair \<open>e\<close> among their three edges, and \<open>valid_simplices\<close> says
  that every vertex index of the triangulation is inside the point array.
\<close>

definition tri_area_of :: "point list \<Rightarrow> nat \<times> nat \<times> nat \<Rightarrow> real" where
  "tri_area_of points simplex =
     (case simplex of (i0, i1, i2) \<Rightarrow>
        let a = pnorm (psub (points ! i0) (points ! i1));
            b = pnorm (psub (points ! i1) (points ! i2));
            c = pnorm (psub (points ! i2) (points ! i0));
            s = (a + b + c) / 2
        in sqrt (max 0 (s * (s - a) * (s - b) * (s - c))))"

definition circum_r_of :: "point list \<Rightarrow> nat \<times> nat \<times> nat \<Rightarrow> real" where
  "circum_r_of points simplex =
     (case simplex of (i0, i1, i2) \<Rightarrow>
        let a = pnorm (psub (points ! i0) (points ! i1));
            b = pnorm (psub (points ! i1) (points ! i2));
            c = pnorm (psub (points ! i2) (points ! i0))
        in (a * b * c) / (4 * tri_area_of points simplex))"

definition retained :: "point list \<Rightarrow> real \<Rightarrow> nat \<times> nat \<times> nat \<Rightarrow> bool" where
  "retained points alpha_threshold simplex \<longleftrightarrow>
     1 / 100000 \<le> tri_area_of points simplex \<and>
     circum_r_of points simplex < 1 / alpha_threshold"

definition triangles_with_edge :: "nat \<times> nat \<Rightarrow> (nat \<times> nat \<times> nat) list \<Rightarrow> nat" where
  "triangles_with_edge e simplices = length (filter (\<lambda>simplex. e \<in> set (simplex_edges simplex)) simplices)"

definition valid_simplices :: "point list \<Rightarrow> (nat \<times> nat \<times> nat) list \<Rightarrow> bool" where
  "valid_simplices points simplices \<longleftrightarrow>
     list_all (\<lambda>(i0, i1, i2). i0 < length points \<and> i1 < length points \<and> i2 < length points) simplices"

text \<open>
  The sampled rows and the profile that \<open>calculate_max_centered_ellipse\<close> builds from a
  non-empty boundary: the heights of all segment end points, the rows from the lowest to the
  highest in steps of \<open>1\<close>, and the profile radius of each row.
\<close>

definition hull_ys :: "(point \<times> point) list \<Rightarrow> real list" where
  "hull_ys hull_lines = concat (map (\<lambda>line. [snd (fst line), snd (snd line)]) hull_lines)"

definition scan_rows :: "(point \<times> point) list \<Rightarrow> real list" where
  "scan_rows hull_lines = arange (Min (set (hull_ys hull_lines))) (Max (set (hull_ys hull_lines))) 1"

definition profile_rows :: "(point \<times> point) list \<Rightarrow> real list" where
  "profile_rows hull_lines = map (profile_radius_at hull_lines) (scan_rows hull_lines)"

text \<open>
  The half-width that an ellipse of width \<open>w\<close> and height \<open>h\<close> needs at vertical distance
  \<open>dy\<close> from its centre, and the non-collision invariant: on every sampled row within the
  vertical extent of the ellipse, the required half-width does not exceed the profile radius.
\<close>

definition required_half_width :: "real \<Rightarrow> real \<Rightarrow> real \<Rightarrow> real" where
  "required_half_width w h dy = (w / 2) * sqrt (max 0 (1 - (dy / (h / 2))\<^sup>2))"

definition ellipse_clear :: "real list \<Rightarrow> real list \<Rightarrow> real \<times> real \<times> real \<Rightarrow> bool" where
  "ellipse_clear rows profile e =
     (case e of (cy, w, h) \<Rightarrow>
        \<forall>j<length rows. \<bar>rows ! j - cy\<bar> \<le> h / 2 \<longrightarrow>
           required_half_width w h \<bar>rows ! j - cy\<bar> \<le> profile ! j)"

text \<open>
  A candidate width passes the body of the width loop: its row range is inside the sampled
  rows and the collision loop over that range finds nothing.
\<close>

definition accepted ::
    "real list \<Rightarrow> real list \<Rightarrow> real \<Rightarrow> real \<Rightarrow> real \<Rightarrow> real \<Rightarrow> real \<Rightarrow> bool" where
  "accepted scan_ys profile aspect min_y res center_y w =
     (let half_h = w * aspect / 2;
          idx_start = py_int ((center_y - half_h - min_y) / res);
          idx_end = py_int ((center_y + half_h - min_y) / res)
      in \<not> (idx_start < 0 \<or> idx_end \<ge> int (length scan_ys)) \<and>
         \<not> collision_loop scan_ys profile center_y w half_h [nat idx_start..<nat (idx_end + 1)])"

text \<open>
  The same test stated on the rows themselves, without the loops of the program: the ellipse
  of width \<open>w\<close> centred at height \<open>cy\<close> fits when the index range of its vertical extent
  (truncated as \<open>int\<close> does) lies inside the sampled rows and, on every row of that range,
  the required half-width does not exceed the profile radius.
\<close>

definition candidate_fits ::
    "real list \<Rightarrow> real list \<Rightarrow> real \<Rightarrow> real \<Rightarrow> real \<Rightarrow> real \<Rightarrow> bool" where
  "candidate_fits rows profile aspect min_y cy w =
     (let half_h = w * aspect / 2;
          idx_start = py_int (cy - half_h - min_y);
          idx_end = py_int (cy + half_h - min_y)
      in 0 \<le> idx_start \<and> idx_end < int (length rows) \<and>
         (\<forall>j. nat idx_start \<le> j \<and> j < nat (idx_end + 1) \<longrightarrow>
              required_half_width w (w * aspect) \<bar>rows ! j - cy\<bar> \<le> profile ! j))"

text \<open>
  The search space of the fitter. A candidate is a centre row \<open>i\<close> with profile radius at
  least \<open>1\<close> together with a width \<open>w\<close> from the descending list
  \<open>2 * radius, 2 * radius - 2, ...\<close> of that row that fits. \<open>ellipse_candidate\<close> is the
  candidate relation of a boundary, for the aspect ratio \<open>0.5\<close>.
\<close>

definition search_candidate ::
    "real list \<Rightarrow> real list \<Rightarrow> real \<Rightarrow> real \<Rightarrow> nat \<Rightarrow> real \<Rightarrow> bool" where
  "search_candidate rows profile aspect min_y i w \<longleftrightarrow>
     i < length rows \<and> 1 \<le> profile ! i \<and>
     w \<in> set (arange (profile ! i * 2) 0 (- 2)) \<and>
     candidate_fits rows profile aspect min_y (rows ! i) w"

definition ellipse_candidate :: "(point \<times> point) list \<Rightarrow> nat \<Rightarrow> real \<Rightarrow> bool" where
  "ellipse_candidate hull_lines i w \<longleftrightarrow>
     search_candidate (scan_rows hull_lines) (profile_rows hull_lines) (1 / 2)
       (Min (set (hull_ys hull_lines))) i w"

text \<open>
  The invariant of the loop over the centres, for the set \<open>D\<close> of centres already visited:
  the best width bounds every candidate of a visited centre, and a positive best width is
  itself a candidate of the first visited centre that reaches it.
\<close>

definition search_state_ok ::
    "real list \<Rightarrow> real list \<Rightarrow> real \<Rightarrow> real \<Rightarrow> nat set \<Rightarrow> real \<times> real \<Rightarrow> bool" where
  "search_state_ok rows profile aspect min_y D st =
     (case st of (bw, by) \<Rightarrow>
        0 \<le> bw \<and> (bw = 0 \<longrightarrow> by = 0) \<and>
        (\<forall>i\<in>D. \<forall>w. search_candidate rows profile aspect min_y i w \<longrightarrow> w \<le> bw) \<and>
        (0 < bw \<longrightarrow>
           (\<exists>i\<in>D. search_candidate rows profile aspect min_y i bw \<and> by = rows ! i \<and>
                  (\<forall>i'\<in>D. i' < i \<longrightarrow>
                     (\<forall>w. search_candidate rows profile aspect min_y i' w \<longrightarrow> w < bw)))))"

section \<open>Segment intersection on collinear points\<close>

lemma cross_zero_on_line:
  fixes a b :: real
  assumes nz: "a \<noteq> 0 \<or> b \<noteq> 0"
    and P: "a * px + b * py = c" and Q: "a * qx + b * qy = c" and R: "a * rx + b * ry = c"
  shows "(ry - py) * (qx - px) = (qy - py) * (rx - px)"
proof -
  have v: "a * (qx - px) + b * (qy - py) = 0" using P Q by (simp add: algebra_simps)
  have w: "a * (rx - px) + b * (ry - py) = 0" using P R by (simp add: algebra_simps)
  have A: "a * ((ry - py) * (qx - px) - (qy - py) * (rx - px)) = 0"
  proof -
    have "a * ((ry - py) * (qx - px) - (qy - py) * (rx - px))
        = (ry - py) * (a * (qx - px) + b * (qy - py)) - (qy - py) * (a * (rx - px) + b * (ry - py))"
      by (simp add: algebra_simps)
    thus ?thesis by (simp add: v w)
  qed
  have B: "b * ((ry - py) * (qx - px) - (qy - py) * (rx - px)) = 0"
  proof -
    have "b * ((ry - py) * (qx - px) - (qy - py) * (rx - px))
        = (qx - px) * (a * (rx - px) + b * (ry - py)) - (rx - px) * (a * (qx - px) + b * (qy - py))"
      by (simp add: algebra_simps)
    thus ?thesis by (simp add: v w)
  qed
  from nz A B show ?thesis by auto
qed

lemma ccw_on_line:
  assumes "a \<noteq> 0 \<or> b \<noteq> 0"
    and "a * fst P + b * snd P = c" and "a * fst Q + b * snd Q = c" and "a * fst R + b * snd R = c"
  shows "\<not> ccw P Q R"
  using cross_zero_on_line[OF assms] by (simp add: ccw_def)

text \<open>
  In exact arithmetic four collinear points never intersect, also when the segments overlap:
  on a common line both sides of every strict comparison in \<open>ccw\<close> are equal. This is a
  fact of the real-number reading only. The program evaluates the two products of each
  comparison in doubles, where they can round apart for exactly collinear inputs, so the
  lemma says nothing about the rounded comparison.
\<close>

lemma intersect_collinear_false_exact:
  assumes "collinear4 A B C D"
  shows "\<not> ccw A C D \<and> \<not> ccw B C D \<and> \<not> ccw A B C \<and> \<not> ccw A B D \<and>
         \<not> intersect A B C D"
proof -
  from assms obtain a b c where nz: "a \<noteq> 0 \<or> b \<noteq> 0"
    and A: "a * fst A + b * snd A = c" and B: "a * fst B + b * snd B = c"
    and C: "a * fst C + b * snd C = c" and D: "a * fst D + b * snd D = c"
    unfolding collinear4_def by blast
  have "\<not> ccw A C D" "\<not> ccw B C D" "\<not> ccw A B C" "\<not> ccw A B D"
    using ccw_on_line[OF nz A C D] ccw_on_line[OF nz B C D]
      ccw_on_line[OF nz A B C] ccw_on_line[OF nz A B D] by simp_all
  thus ?thesis by (simp add: intersect_def)
qed

section \<open>Circle intersection\<close>

lemma gci_none_iff:
  "get_circle_intersection p1 r1 p2 r2 ch = None \<longleftrightarrow>
     (pnorm (psub p1 p2) > r1 + r2 \<or> pnorm (psub p1 p2) < \<bar>r1 - r2\<bar> \<or> pnorm (psub p1 p2) = 0)"
  by (simp add: get_circle_intersection_def pnorm_def psub_def Let_def)

lemma gci_some_form:
  assumes "get_circle_intersection p1 r1 p2 r2 ch = Some p"
  defines "d \<equiv> pnorm (psub p1 p2)"
  defines "a \<equiv> (r1\<^sup>2 - r2\<^sup>2 + d\<^sup>2) / (2 * d)"
  defines "h \<equiv> sqrt (max 0 (r1\<^sup>2 - a\<^sup>2))"
  shows "d > 0 \<and> d \<le> r1 + r2 \<and> \<bar>r1 - r2\<bar> \<le> d \<and>
         p = circle_candidate p1 p2 d a h (if ch = 1 then 1 else - 1)"
proof -
  have d0: "d \<ge> 0" by (simp add: d_def pnorm_def)
  from assms(1) have ok: "\<not> (d > r1 + r2 \<or> d < \<bar>r1 - r2\<bar> \<or> d = 0)"
    unfolding d_def using gci_none_iff[of p1 r1 p2 r2 ch] by simp
  have dpos: "d > 0" using ok d0 by simp
  have "p = circle_candidate p1 p2 d a h (if ch = 1 then 1 else - 1)"
    using assms(1) ok
    unfolding get_circle_intersection_def Let_def d_def a_def h_def pnorm_def psub_def
      circle_candidate_def
    by (simp split: if_splits)
  with ok dpos show ?thesis by simp
qed

lemma candidate_on_circles:
  fixes s :: real
  assumes dpos: "d > 0" and up: "d \<le> r1 + r2" and lo: "\<bar>r1 - r2\<bar> \<le> d"
    and d_def: "d = pnorm (psub p1 p2)"
    and a_def: "a = (r1\<^sup>2 - r2\<^sup>2 + d\<^sup>2) / (2 * d)"
    and h_def: "h = sqrt (max 0 (r1\<^sup>2 - a\<^sup>2))"
    and s2: "s\<^sup>2 = 1"
    and p: "p = circle_candidate p1 p2 d a h s"
  shows "pnorm (psub p p1) = r1 \<and> pnorm (psub p p2) = r2"
proof -
  define X where "X = fst p2 - fst p1"
  define Y where "Y = snd p2 - snd p1"
  have dXY: "d\<^sup>2 = X\<^sup>2 + Y\<^sup>2"
    by (simp add: d_def pnorm_def psub_def X_def Y_def power2_commute)
  have r1: "r1 \<ge> 0" and r2: "r2 \<ge> 0" using up lo by linarith+
  have ad: "2 * a * d = r1\<^sup>2 - r2\<^sup>2 + d\<^sup>2" using dpos by (simp add: a_def)
  have "(d - r1)\<^sup>2 \<le> r2\<^sup>2"
    using up lo r2 by (intro power2_le_iff_abs_le[THEN iffD2]) auto
  hence a_le: "a \<le> r1"
  proof -
    assume "(d - r1)\<^sup>2 \<le> r2\<^sup>2"
    hence "r1\<^sup>2 - r2\<^sup>2 + d\<^sup>2 \<le> 2 * d * r1" by (simp add: power2_eq_square algebra_simps)
    hence "2 * a * d \<le> 2 * r1 * d" using ad by (simp add: mult_ac)
    thus ?thesis using dpos by simp
  qed
  have "r2\<^sup>2 \<le> (d + r1)\<^sup>2"
    using lo r1 r2 dpos by (intro power_mono) auto
  hence a_ge: "- r1 \<le> a"
  proof -
    assume "r2\<^sup>2 \<le> (d + r1)\<^sup>2"
    hence "- 2 * d * r1 \<le> r1\<^sup>2 - r2\<^sup>2 + d\<^sup>2" by (simp add: power2_eq_square algebra_simps)
    hence "(- r1) * d \<le> a * d" using ad by (simp add: mult_ac)
    thus ?thesis using dpos by (simp only: mult_le_cancel_right_pos)
  qed
  have "a\<^sup>2 \<le> r1\<^sup>2" using a_le a_ge r1 by (simp add: abs_le_square_iff[symmetric] abs_le_iff)
  hence h2: "h\<^sup>2 = r1\<^sup>2 - a\<^sup>2" by (simp add: h_def)
  have q1: "(a * X / d + s * h * Y / d)\<^sup>2 + (a * Y / d - s * h * X / d)\<^sup>2 = r1\<^sup>2"
  proof -
    have "(a * X / d + s * h * Y / d)\<^sup>2 + (a * Y / d - s * h * X / d)\<^sup>2
        = (a\<^sup>2 + s\<^sup>2 * h\<^sup>2) * (X\<^sup>2 + Y\<^sup>2) / d\<^sup>2"
      using dpos by (simp add: power2_eq_square field_simps)
    also have "\<dots> = a\<^sup>2 + h\<^sup>2" using dpos by (simp add: s2 dXY[symmetric])
    finally show ?thesis by (simp add: h2)
  qed
  have q2: "(a * X / d + s * h * Y / d - X)\<^sup>2 + (a * Y / d - s * h * X / d - Y)\<^sup>2 = r2\<^sup>2"
  proof -
    have "(a * X / d + s * h * Y / d - X)\<^sup>2 + (a * Y / d - s * h * X / d - Y)\<^sup>2
        = ((a * X / d + s * h * Y / d)\<^sup>2 + (a * Y / d - s * h * X / d)\<^sup>2)
          - 2 * a * (X\<^sup>2 + Y\<^sup>2) / d + (X\<^sup>2 + Y\<^sup>2)"
      using dpos by (simp add: power2_eq_square field_simps)
    also have "\<dots> = r1\<^sup>2 - 2 * a * d + d\<^sup>2"
    proof -
      have "2 * a * (X\<^sup>2 + Y\<^sup>2) / d = 2 * a * d"
        using dpos unfolding dXY[symmetric] by (simp add: power2_eq_square)
      thus ?thesis by (simp only: q1 dXY[symmetric])
    qed
    finally show ?thesis using ad by simp
  qed
  have "pnorm (psub p p1) = sqrt (r1\<^sup>2)"
    unfolding pnorm_def psub_def p circle_candidate_def X_def[symmetric] Y_def[symmetric]
    using q1 by (simp add: algebra_simps)
  moreover have "pnorm (psub p p2) = sqrt (r2\<^sup>2)"
  proof -
    have "fst p - fst p2 = a * X / d + s * h * Y / d - X" "snd p - snd p2 = a * Y / d - s * h * X / d - Y"
      by (simp_all add: p X_def Y_def circle_candidate_def)
    thus ?thesis unfolding pnorm_def psub_def using q2 by simp
  qed
  ultimately show ?thesis using r1 r2 by simp
qed

lemma gci_on_circles:
  assumes "get_circle_intersection p1 r1 p2 r2 ch = Some p"
  shows "pnorm (psub p p1) = r1 \<and> pnorm (psub p p2) = r2"
proof -
  note f = gci_some_form[OF assms]
  have s2: "(if ch = 1 then 1 else - 1 :: real)\<^sup>2 = 1" by simp
  show ?thesis
    using f candidate_on_circles[OF _ _ _ refl refl refl s2, of p1 p2 r1 r2 p] by blast
qed

lemma reflect_candidate:
  fixes a h s d :: real
  assumes dpos: "d > 0" and d: "d = pnorm (psub p1 p2)"
  shows "reflect_across p1 p2 (circle_candidate p1 p2 d a h s) = circle_candidate p1 p2 d a h (- s)"
proof -
  define X where "X = fst p2 - fst p1"
  define Y where "Y = snd p2 - snd p1"
  define q where "q = circle_candidate p1 p2 d a h s"
  have dXY: "d\<^sup>2 = X\<^sup>2 + Y\<^sup>2"
    by (simp add: d pnorm_def psub_def X_def Y_def power2_commute)
  have uu: "X * X + Y * Y = d * d" using dXY by (simp add: power2_eq_square)
  have num: "(a * X / d + s * h * Y / d) * X + (a * Y / d - s * h * X / d) * Y = a * d"
  proof -
    have "(a * X / d + s * h * Y / d) * X + (a * Y / d - s * h * X / d) * Y = a * (X * X + Y * Y) / d"
      using dpos by (simp add: field_simps)
    also have "\<dots> = a * d" using dpos by (simp add: uu)
    finally show ?thesis .
  qed
  have ps: "psub p2 p1 = (X, Y)" by (simp add: psub_def X_def Y_def)
  have qs: "psub q p1 = (a * X / d + s * h * Y / d, a * Y / d - s * h * X / d)"
    by (simp add: psub_def q_def circle_candidate_def X_def Y_def)
  have T: "pdot (psub q p1) (X, Y) / pdot (X, Y) (X, Y) = a / d"
    unfolding qs pdot_def fst_conv snd_conv num uu using dpos by simp
  have "reflect_across p1 p2 q = psub (pscale (padd p1 (pscale (X, Y) (a / d))) 2) q"
    by (simp only: reflect_across_def Let_def ps T)
  also have "\<dots> = circle_candidate p1 p2 d a h (- s)"
    by (simp add: psub_def padd_def pscale_def q_def circle_candidate_def X_def Y_def)
  finally show ?thesis by (simp add: q_def)
qed


text \<open>
  C3. \<open>get_circle_intersection p1 r1 p2 r2 chirality\<close> returns none if and only if
  \<open>d > r1 + r2\<close>, or \<open>d < |r1 - r2|\<close>, or \<open>d = 0\<close>, where \<open>d\<close> is the Euclidean
  distance between the centres; for every other input it returns a point, and that point lies
  on both circles.
\<close>

theorem circle_intersection_none_iff:
  "(get_circle_intersection p1 r1 p2 r2 chirality = None \<longleftrightarrow>
      pnorm (psub p1 p2) > r1 + r2 \<or> pnorm (psub p1 p2) < \<bar>r1 - r2\<bar> \<or>
      pnorm (psub p1 p2) = 0) \<and>
   (get_circle_intersection p1 r1 p2 r2 chirality \<noteq> None \<longrightarrow>
      (\<exists>p. get_circle_intersection p1 r1 p2 r2 chirality = Some p \<and>
           pnorm (psub p p1) = r1 \<and> pnorm (psub p p2) = r2))"
proof (intro conjI impI)
  show "get_circle_intersection p1 r1 p2 r2 chirality = None \<longleftrightarrow>
      pnorm (psub p1 p2) > r1 + r2 \<or> pnorm (psub p1 p2) < \<bar>r1 - r2\<bar> \<or>
      pnorm (psub p1 p2) = 0"
    by (rule gci_none_iff)
next
  assume "get_circle_intersection p1 r1 p2 r2 chirality \<noteq> None"
  then obtain p where p: "get_circle_intersection p1 r1 p2 r2 chirality = Some p" by blast
  with gci_on_circles[OF p] show "\<exists>p. get_circle_intersection p1 r1 p2 r2 chirality = Some p \<and>
           pnorm (psub p p1) = r1 \<and> pnorm (psub p p2) = r2" by blast
qed

text \<open>
  Two unit circles centred at \<open>(0,0)\<close> and \<open>(1,0)\<close> meet; two concentric circles do not.
\<close>

theorem circle_intersection_none_iff_witness:
  "get_circle_intersection (0, 0) 1 (1, 0) 1 (- 1) \<noteq> None \<and>
   (\<exists>p. get_circle_intersection (0, 0) 1 (1, 0) 1 (- 1) = Some p \<and>
        pnorm (psub p (0, 0)) = 1 \<and> pnorm (psub p (1, 0)) = 1) \<and>
   get_circle_intersection (0, 0) 2 (0, 0) 1 1 = None"
proof -
  have d: "pnorm (psub (0, 0) (1, 0)) = 1" by (simp add: pnorm_def psub_def)
  have z: "pnorm (psub (0, 0) (0, 0)) = 0" by (simp add: pnorm_def psub_def)
  have some: "get_circle_intersection (0, 0) 1 (1, 0) 1 (- 1) \<noteq> None"
    using circle_intersection_none_iff[of "(0, 0)" 1 "(1, 0)" 1 "- 1"] d by simp
  have none: "get_circle_intersection (0, 0) 2 (0, 0) 1 1 = None"
    using circle_intersection_none_iff[of "(0, 0)" 2 "(0, 0)" 1 1] z by simp
  from some none circle_intersection_none_iff[of "(0, 0)" 1 "(1, 0)" 1 "- 1"]
  show ?thesis by blast
qed

text \<open>
  C4. For every pair of circles whose centre distance \<open>d\<close> satisfies
  \<open>|r1 - r2| < d < r1 + r2\<close> with \<open>d > 0\<close>, the point returned with chirality \<open>+1\<close> and
  the point returned with chirality \<open>-1\<close> on the same inputs are reflections of each other
  across the line through the two centres.
\<close>

theorem chirality_reflection:
  assumes "\<bar>r1 - r2\<bar> < pnorm (psub p1 p2)" and "pnorm (psub p1 p2) < r1 + r2"
    and "pnorm (psub p1 p2) > 0"
  shows "\<exists>q1 q2. get_circle_intersection p1 r1 p2 r2 1 = Some q1 \<and>
                 get_circle_intersection p1 r1 p2 r2 (- 1) = Some q2 \<and>
                 reflect_across p1 p2 q1 = q2 \<and> reflect_across p1 p2 q2 = q1"
proof -
  define d where "d = pnorm (psub p1 p2)"
  have "get_circle_intersection p1 r1 p2 r2 1 \<noteq> None"
    using assms gci_none_iff[of p1 r1 p2 r2 1] by simp
  then obtain q1 where q1: "get_circle_intersection p1 r1 p2 r2 1 = Some q1" by blast
  have "get_circle_intersection p1 r1 p2 r2 (- 1) \<noteq> None"
    using assms gci_none_iff[of p1 r1 p2 r2 "- 1"] by simp
  then obtain q2 where q2: "get_circle_intersection p1 r1 p2 r2 (- 1) = Some q2" by blast
  have dpos: "d > 0" using assms(3) by (simp add: d_def)
  note f1 = gci_some_form[OF q1, folded d_def]
  note f2 = gci_some_form[OF q2, folded d_def]
  have r12: "reflect_across p1 p2 q1 = q2"
    using f1 f2 reflect_candidate[OF dpos d_def] by simp
  have r21: "reflect_across p1 p2 q2 = q1"
    using f1 f2 reflect_candidate[OF dpos d_def] by simp
  from q1 q2 r12 r21 show ?thesis by blast
qed

text \<open>The two unit circles centred at \<open>(0,0)\<close> and \<open>(1,0)\<close>.\<close>

theorem chirality_reflection_witness:
  "\<bar>(1::real) - 1\<bar> < pnorm (psub (0, 0) (1, 0)) \<and> pnorm (psub (0, 0) (1, 0)) < 1 + 1 \<and>
   pnorm (psub (0, 0) (1, 0)) > 0 \<and>
   (\<exists>q1 q2. get_circle_intersection (0, 0) 1 (1, 0) 1 1 = Some q1 \<and>
            get_circle_intersection (0, 0) 1 (1, 0) 1 (- 1) = Some q2 \<and>
            reflect_across (0, 0) (1, 0) q1 = q2 \<and> reflect_across (0, 0) (1, 0) q2 = q1)"
proof -
  have d: "pnorm (psub (0, 0) (1, 0)) = 1" by (simp add: pnorm_def psub_def)
  have h1: "\<bar>(1::real) - 1\<bar> < pnorm (psub (0, 0) (1, 0))" by (simp add: d)
  have h2: "pnorm (psub (0, 0) (1, 0)) < 1 + 1" by (simp add: d)
  have h3: "pnorm (psub (0, 0) (1, 0)) > 0" by (simp add: d)
  from h1 h2 h3 chirality_reflection[OF h1 h2 h3] show ?thesis by blast
qed

section \<open>Parameter updates\<close>

lemma getitem_Some: "m k = Some v \<Longrightarrow> getitem m k = Inr v"
  by (simp add: getitem_def)

lemma getitem_None: "m k = None \<Longrightarrow> getitem m k = Inl (KeyError k)"
  by (simp add: getitem_def)

text \<open>
  C9. \<open>update_params\<close> of the rear five-bar leg assigns the link lengths in the fixed key
  order \<open>l1\<close>, \<open>l2\<close>, \<open>l3\<close>, \<open>l4\<close>, \<open>l5\<close> by direct lookup. A call whose mapping has
  the keys \<open>L1 (S1->A)\<close> and \<open>L2 (A->B)\<close> but lacks \<open>L3 (S2->C)\<close> raises the missing-key
  error for that key after \<open>l1\<close> and \<open>l2\<close> have been overwritten, while \<open>l3\<close>, \<open>l4\<close> and
  \<open>l5\<close> keep their previous values: the state is changed on error.
\<close>

theorem rear_update_params_not_atomic:
  assumes "params ''L1 (S1->A)'' = Some a" and "params ''L2 (A->B)'' = Some b"
    and "params ''L3 (S2->C)'' = None"
  shows "fivebar_rear_update_params params s
           = (Inl (KeyError ''L3 (S2->C)''), s\<lparr>l1 := a, l2 := b\<rparr>) \<and>
         l1 (snd (fivebar_rear_update_params params s)) = a \<and>
         l2 (snd (fivebar_rear_update_params params s)) = b \<and>
         l3 (snd (fivebar_rear_update_params params s)) = l3 s \<and>
         l4 (snd (fivebar_rear_update_params params s)) = l4 s \<and>
         l5 (snd (fivebar_rear_update_params params s)) = l5 s"
proof -
  have "fivebar_rear_update_params params s
           = (Inl (KeyError ''L3 (S2->C)''), s\<lparr>l1 := a, l2 := b\<rparr>)"
    unfolding fivebar_rear_update_params_def using assms
    by (simp add: getitem_def)
  thus ?thesis by simp
qed

text \<open>The default rear leg, updated with a mapping that holds the first two keys only.\<close>

theorem rear_update_params_not_atomic_witness:
  "fivebar_rear_update_params [''L1 (S1->A)'' \<mapsto> 60, ''L2 (A->B)'' \<mapsto> 70] FiveBarRearLeg_init
     = (Inl (KeyError ''L3 (S2->C)''),
        \<lparr> offset_t1 = 0, offset_t2 = 0, collision_threshold = 10,
          l1 = 60, l2 = 70, l3 = 50, l4 = 45, l5 = 95,
          servo1_pos = (- 15, - 10), servo2_pos = (0, 0) \<rparr>)"
proof -
  let ?m = "[''L1 (S1->A)'' \<mapsto> 60, ''L2 (A->B)'' \<mapsto> (70::real)]"
  have h1: "?m ''L1 (S1->A)'' = Some 60" by simp
  have h2: "?m ''L2 (A->B)'' = Some 70" by simp
  have h3: "?m ''L3 (S2->C)'' = None" by simp
  have e: "FiveBarRearLeg_init\<lparr>l1 := 60, l2 := 70\<rparr>
         = \<lparr> offset_t1 = 0, offset_t2 = 0, collision_threshold = 10,
             l1 = 60, l2 = 70, l3 = 50, l4 = 45, l5 = 95,
             servo1_pos = (- 15, - 10), servo2_pos = (0, 0) \<rparr>"
    by (simp add: FiveBarRearLeg_init_def)
  from rear_update_params_not_atomic[OF h1 h2 h3, of FiveBarRearLeg_init, THEN conjunct1]
  show ?thesis unfolding e .
qed

text \<open>
  The front five-bar leg reads other keys for \<open>l2\<close>, \<open>l3\<close> and \<open>l4\<close>: given the same
  mapping it stops at its own second key, with \<open>l1\<close> overwritten only.
\<close>

lemma front_update_params_stops_at_l2:
  assumes "params ''L1 (S1->A)'' = Some a" and "params ''L2 (S2->B)'' = None"
  shows "fivebar_front_update_params params s = (Inl (KeyError ''L2 (S2->B)''), s\<lparr>l1 := a\<rparr>)"
  unfolding fivebar_front_update_params_def using assms by (simp add: getitem_def)

section \<open>Pantograph kinematics\<close>

lemma pnorm_pol2cart: "pnorm (pol2cart rho phi) = \<bar>rho\<bar>"
proof -
  have "rho\<^sup>2 * (cos phi)\<^sup>2 + rho\<^sup>2 * (sin phi)\<^sup>2 = rho\<^sup>2 * ((cos phi)\<^sup>2 + (sin phi)\<^sup>2)"
    by (simp only: distrib_left)
  also have "\<dots> = rho\<^sup>2" by simp
  finally have e: "rho\<^sup>2 * (cos phi)\<^sup>2 + rho\<^sup>2 * (sin phi)\<^sup>2 = rho\<^sup>2" .
  show ?thesis
    unfolding pnorm_def pol2cart_def fst_conv snd_conv power_mult_distrib e by simp
qed

lemma parallelogram_cancel: "psub (padd (padd p c) t) (padd p t) = c"
  by (simp add: psub_def padd_def)

text \<open>
  In exact arithmetic the shin direction \<open>Mount - Knee\<close> of the pantograph is the crank
  vector (the thigh vector cancels), its norm is \<open>|l_crank|\<close>, and the zero-norm branch is
  taken exactly when \<open>l_crank = 0\<close>. This is a fact of the real-number reading only: in
  doubles the sum \<open>crank + thigh\<close> is rounded before the subtraction, so the cancellation is
  not exact and a crank far shorter than the thigh is absorbed.
\<close>

lemma pantograph_shin_is_crank_exact:
  "let theta1 = radians theta1_deg + offset_t1 s;
       theta2 = radians theta2_deg + offset_t2 s;
       vec_crank = pol2cart (l_crank s) theta2;
       knee = padd (pantograph_leg.servo2_pos s) (pol2cart (l_thigh s) theta1);
       mount = padd (padd (pantograph_leg.servo2_pos s) vec_crank) (pol2cart (l_thigh s) theta1)
   in psub mount knee = vec_crank \<and>
      pnorm (psub mount knee) = \<bar>l_crank s\<bar> \<and>
      (fst (pantograph_forward_kinematics s theta1_deg theta2_deg) = None \<longleftrightarrow> l_crank s = 0) \<and>
      (l_crank s \<noteq> 0 \<longrightarrow>
         (\<exists>joints. pantograph_forward_kinematics s theta1_deg theta2_deg
              = (Some (padd knee (pscale (pdiv vec_crank (pnorm vec_crank)) (l_shin s))), joints) \<and>
            joints ''Knee'' = Some knee \<and> joints ''Mount'' = Some mount))"
  unfolding Let_def pantograph_forward_kinematics_def parallelogram_cancel pnorm_pol2cart
  by simp

section \<open>Forward kinematics: when no foot point is returned\<close>

lemma rear_fk_cases:
  "fivebar_rear_forward_kinematics s t1 t2 =
     (case get_circle_intersection (rear_point_a s t1) (l2 s) (rear_point_c s t2) (l4 s) (- 1) of
        None \<Rightarrow> (None, Map.empty)
      | Some b \<Rightarrow>
          if pnorm (psub (rear_point_c s t2) b) < 1 / 1000000 then (None, Map.empty)
          else (Some (padd (rear_point_c s t2)
                        (pscale (pdiv (psub (rear_point_c s t2) b) (pnorm (psub (rear_point_c s t2) b))) (l5 s))),
                [''S1'' \<mapsto> servo1_pos s, ''S2'' \<mapsto> servo2_pos s, ''A'' \<mapsto> rear_point_a s t1,
                 ''B'' \<mapsto> b, ''C'' \<mapsto> rear_point_c s t2,
                 ''Foot'' \<mapsto> padd (rear_point_c s t2)
                        (pscale (pdiv (psub (rear_point_c s t2) b) (pnorm (psub (rear_point_c s t2) b))) (l5 s))]))"
  unfolding fivebar_rear_forward_kinematics_def rear_point_a_def rear_point_c_def Let_def
  by (simp split: option.splits)

lemma front_fk_cases:
  "fivebar_front_forward_kinematics s t1 t2 =
     (case get_circle_intersection (front_point_a s t1) (l4 s) (front_point_b s t2) (l3 s) (- 1) of
        None \<Rightarrow> (None, Map.empty)
      | Some c \<Rightarrow>
          if pnorm (psub c (front_point_a s t1)) < 1 / 1000000 then (None, Map.empty)
          else (Some (padd c (pscale (pdiv (psub c (front_point_a s t1)) (pnorm (psub c (front_point_a s t1)))) (l5 s))),
                [''S1'' \<mapsto> servo1_pos s, ''S2'' \<mapsto> servo2_pos s, ''A'' \<mapsto> front_point_a s t1,
                 ''B'' \<mapsto> front_point_b s t2, ''C'' \<mapsto> c,
                 ''Foot'' \<mapsto> padd c (pscale (pdiv (psub c (front_point_a s t1)) (pnorm (psub c (front_point_a s t1)))) (l5 s))]))"
  unfolding fivebar_front_forward_kinematics_def front_point_a_def front_point_b_def Let_def
  by (simp split: option.splits)

lemma pnorm_psub_commute: "pnorm (psub p q) = pnorm (psub q p)"
  by (simp add: pnorm_def psub_def power2_commute)

lemma rear_norm_is_l4:
  assumes "get_circle_intersection (rear_point_a s t1) (l2 s) (rear_point_c s t2) (l4 s) ch = Some b"
  shows "pnorm (psub (rear_point_c s t2) b) = l4 s"
  using gci_on_circles[OF assms] by (simp add: pnorm_psub_commute)

lemma front_norm_is_l4:
  assumes "get_circle_intersection (front_point_a s t1) (l4 s) (front_point_b s t2) (l3 s) ch = Some c"
  shows "pnorm (psub c (front_point_a s t1)) = l4 s"
  using gci_on_circles[OF assms] by simp

lemma rear_fk_none_iff:
  "fst (fivebar_rear_forward_kinematics s t1 t2) = None \<longleftrightarrow>
     get_circle_intersection (rear_point_a s t1) (l2 s) (rear_point_c s t2) (l4 s) (- 1) = None \<or>
     (\<exists>b. get_circle_intersection (rear_point_a s t1) (l2 s) (rear_point_c s t2) (l4 s) (- 1) = Some b \<and>
          pnorm (psub (rear_point_c s t2) b) < 1 / 1000000)"
  unfolding rear_fk_cases by (auto split: option.splits)

lemma front_fk_none_iff:
  "fst (fivebar_front_forward_kinematics s t1 t2) = None \<longleftrightarrow>
     get_circle_intersection (front_point_a s t1) (l4 s) (front_point_b s t2) (l3 s) (- 1) = None \<or>
     (\<exists>c. get_circle_intersection (front_point_a s t1) (l4 s) (front_point_b s t2) (l3 s) (- 1) = Some c \<and>
          pnorm (psub c (front_point_a s t1)) < 1 / 1000000)"
  unfolding front_fk_cases by (auto split: option.splits)

lemma pantograph_fk_none_iff:
  "fst (pantograph_forward_kinematics p t1 t2) = None \<longleftrightarrow> pnorm (pantograph_vec_shin_dir p t1 t2) = 0"
  unfolding pantograph_forward_kinematics_def pantograph_vec_shin_dir_def Let_def by simp

lemma serial_fk_some: "fst (serial_forward_kinematics q t1 t2) \<noteq> None"
  unfolding serial_forward_kinematics_def Let_def by simp

lemma rear_fk_joints:
  "fst (fivebar_rear_forward_kinematics s t1 t2) \<noteq> None \<longrightarrow>
     dom (snd (fivebar_rear_forward_kinematics s t1 t2)) = {''S1'', ''S2'', ''A'', ''B'', ''C'', ''Foot''} \<and>
     snd (fivebar_rear_forward_kinematics s t1 t2) ''Foot'' = fst (fivebar_rear_forward_kinematics s t1 t2)"
  unfolding rear_fk_cases by (auto split: option.splits if_splits)

lemma front_fk_joints:
  "fst (fivebar_front_forward_kinematics s t1 t2) \<noteq> None \<longrightarrow>
     dom (snd (fivebar_front_forward_kinematics s t1 t2)) = {''S1'', ''S2'', ''A'', ''B'', ''C'', ''Foot''} \<and>
     snd (fivebar_front_forward_kinematics s t1 t2) ''Foot'' = fst (fivebar_front_forward_kinematics s t1 t2)"
  unfolding front_fk_cases by (auto split: option.splits if_splits)

lemma pantograph_fk_joints:
  "fst (pantograph_forward_kinematics p t1 t2) \<noteq> None \<longrightarrow>
     dom (snd (pantograph_forward_kinematics p t1 t2))
       = {''S1'', ''S2'', ''Knee'', ''CrankTip'', ''Mount'', ''Foot'', ''ThighConnect''} \<and>
     snd (pantograph_forward_kinematics p t1 t2) ''Foot'' = fst (pantograph_forward_kinematics p t1 t2)"
  unfolding pantograph_forward_kinematics_def Let_def by (auto split: if_splits)

lemma serial_fk_joints:
  "dom (snd (serial_forward_kinematics q t1 t2)) = {''Base'', ''Knee'', ''Foot''} \<and>
   snd (serial_forward_kinematics q t1 t2) ''Foot'' = fst (serial_forward_kinematics q t1 t2)"
  unfolding serial_forward_kinematics_def Let_def by auto

lemma radians_90: "radians 90 = pi / 2" by (simp add: radians_def)
lemma radians_0: "radians 0 = 0" by (simp add: radians_def)
lemma radians_180: "radians 180 = pi" by (simp add: radians_def)

lemma pnorm_x_axis: "pnorm (x, 0) = \<bar>x\<bar>" by (simp add: pnorm_def)

lemma default_elbows_90:
  "rear_point_a FiveBarRearLeg_init 90 = (- 15, 35)"
  "rear_point_c FiveBarRearLeg_init 90 = (0, 50)"
  "front_point_a FiveBarFrontLeg_init 90 = (- 15, 35)"
  "front_point_b FiveBarFrontLeg_init 90 = (0, 45)"
  by (simp_all add: rear_point_a_def rear_point_c_def front_point_a_def front_point_b_def
      FiveBarRearLeg_init_def FiveBarFrontLeg_init_def radians_90 pol2cart_def padd_def)

lemma rear_default_feasible:
  "get_circle_intersection (- 15, 35) 45 (0, 50) 45 (- 1) \<noteq> None"
proof -
  have d: "pnorm (psub (- 15, 35) (0, 50)) = sqrt 450" by (simp add: pnorm_def psub_def)
  have "sqrt 450 \<le> 90" by (rule real_le_lsqrt) simp_all
  thus ?thesis unfolding gci_none_iff d by simp
qed

lemma front_default_feasible:
  "get_circle_intersection (- 15, 35) 45 (0, 45) 50 (- 1) \<noteq> None"
proof -
  have d: "pnorm (psub (- 15, 35) (0, 45)) = sqrt 325" by (simp add: pnorm_def psub_def)
  have "sqrt 325 \<le> 95" by (rule real_le_lsqrt) simp_all
  moreover have "5 \<le> sqrt 325" by (rule real_le_rsqrt) simp
  ultimately show ?thesis unfolding gci_none_iff d by simp
qed

text \<open>
  The bound \<open>1e-6\<close> is not the guard of the pantograph. With a crank of length \<open>5e-7\<close> the
  shin direction has norm \<open>5e-7 < 1e-6\<close>, and the pantograph still returns the foot
  \<open>(190, 0)\<close> with its joint set, because its guard is \<open>norm == 0\<close>.
\<close>

theorem pantograph_threshold_counterexample:
  "pnorm (pantograph_vec_shin_dir (PantographLeg_init\<lparr>l_crank := 1 / 2000000\<rparr>) 0 0) < 1 / 1000000 \<and>
   pantograph_forward_kinematics (PantographLeg_init\<lparr>l_crank := 1 / 2000000\<rparr>) 0 0 \<noteq> (None, Map.empty) \<and>
   fst (pantograph_forward_kinematics (PantographLeg_init\<lparr>l_crank := 1 / 2000000\<rparr>) 0 0) = Some (190, 0)"
proof -
  have n: "pnorm (pantograph_vec_shin_dir (PantographLeg_init\<lparr>l_crank := 1 / 2000000\<rparr>) 0 0) = 1 / 2000000"
    by (simp add: pantograph_vec_shin_dir_def parallelogram_cancel pnorm_pol2cart)
  have f: "fst (pantograph_forward_kinematics (PantographLeg_init\<lparr>l_crank := 1 / 2000000\<rparr>) 0 0) = Some (190, 0)"
    unfolding pantograph_forward_kinematics_def Let_def parallelogram_cancel pnorm_pol2cart
    by (simp add: PantographLeg_init_def radians_0 pol2cart_def padd_def pscale_def pdiv_def)
  from n f show ?thesis by auto
qed

text \<open>
  C1. \<open>forward_kinematics\<close> returns no foot point exactly when: for the two
  five-bar legs, the closure circle intersection is infeasible or the direction vector used
  for the foot extension has norm below \<open>1e-6\<close>; for the pantograph, the shin direction has
  norm exactly \<open>0\<close>; for the serial leg, never. The function has no raising path, and whenever
  it returns a foot point it returns the joint set with every label of the variant, the label
  \<open>Foot\<close> holding that point.
\<close>

theorem forward_kinematics_none_cases:
  "(fst (fivebar_rear_forward_kinematics s t1 t2) = None \<longleftrightarrow>
      get_circle_intersection (rear_point_a s t1) (l2 s) (rear_point_c s t2) (l4 s) (- 1) = None \<or>
      (\<exists>b. get_circle_intersection (rear_point_a s t1) (l2 s) (rear_point_c s t2) (l4 s) (- 1) = Some b \<and>
           pnorm (psub (rear_point_c s t2) b) < 1 / 1000000)) \<and>
   (fst (fivebar_front_forward_kinematics s t1 t2) = None \<longleftrightarrow>
      get_circle_intersection (front_point_a s t1) (l4 s) (front_point_b s t2) (l3 s) (- 1) = None \<or>
      (\<exists>c. get_circle_intersection (front_point_a s t1) (l4 s) (front_point_b s t2) (l3 s) (- 1) = Some c \<and>
           pnorm (psub c (front_point_a s t1)) < 1 / 1000000)) \<and>
   (fst (pantograph_forward_kinematics p t1 t2) = None \<longleftrightarrow>
      pnorm (pantograph_vec_shin_dir p t1 t2) = 0) \<and>
   fst (serial_forward_kinematics q t1 t2) \<noteq> None \<and>
   (fst (fivebar_rear_forward_kinematics s t1 t2) \<noteq> None \<longrightarrow>
      dom (snd (fivebar_rear_forward_kinematics s t1 t2)) = {''S1'', ''S2'', ''A'', ''B'', ''C'', ''Foot''} \<and>
      snd (fivebar_rear_forward_kinematics s t1 t2) ''Foot'' = fst (fivebar_rear_forward_kinematics s t1 t2)) \<and>
   (fst (fivebar_front_forward_kinematics s t1 t2) \<noteq> None \<longrightarrow>
      dom (snd (fivebar_front_forward_kinematics s t1 t2)) = {''S1'', ''S2'', ''A'', ''B'', ''C'', ''Foot''} \<and>
      snd (fivebar_front_forward_kinematics s t1 t2) ''Foot'' = fst (fivebar_front_forward_kinematics s t1 t2)) \<and>
   (fst (pantograph_forward_kinematics p t1 t2) \<noteq> None \<longrightarrow>
      dom (snd (pantograph_forward_kinematics p t1 t2))
        = {''S1'', ''S2'', ''Knee'', ''CrankTip'', ''Mount'', ''Foot'', ''ThighConnect''} \<and>
      snd (pantograph_forward_kinematics p t1 t2) ''Foot'' = fst (pantograph_forward_kinematics p t1 t2)) \<and>
   dom (snd (serial_forward_kinematics q t1 t2)) = {''Base'', ''Knee'', ''Foot''} \<and>
   snd (serial_forward_kinematics q t1 t2) ''Foot'' = fst (serial_forward_kinematics q t1 t2)"
  using rear_fk_none_iff[of s t1 t2] front_fk_none_iff[of s t1 t2]
    pantograph_fk_none_iff[of p t1 t2] serial_fk_some[of q t1 t2]
    rear_fk_joints[of s t1 t2] front_fk_joints[of s t1 t2] pantograph_fk_joints[of p t1 t2]
    serial_fk_joints[of q t1 t2]
  by (intro conjI) blast+

text \<open>
  The default legs at small angles return a foot; a pantograph without crank and a rear leg
  with links too short to close do not.
\<close>

theorem forward_kinematics_none_cases_witness:
  "fst (fivebar_rear_forward_kinematics FiveBarRearLeg_init 90 90) \<noteq> None \<and>
   snd (fivebar_rear_forward_kinematics FiveBarRearLeg_init 90 90) ''Foot''
     = fst (fivebar_rear_forward_kinematics FiveBarRearLeg_init 90 90) \<and>
   fst (fivebar_front_forward_kinematics FiveBarFrontLeg_init 90 90) \<noteq> None \<and>
   snd (fivebar_front_forward_kinematics FiveBarFrontLeg_init 90 90) ''Foot''
     = fst (fivebar_front_forward_kinematics FiveBarFrontLeg_init 90 90) \<and>
   fst (pantograph_forward_kinematics PantographLeg_init 90 0) \<noteq> None \<and>
   snd (pantograph_forward_kinematics PantographLeg_init 90 0) ''Foot''
     = fst (pantograph_forward_kinematics PantographLeg_init 90 0) \<and>
   fst (pantograph_forward_kinematics (PantographLeg_init\<lparr>l_crank := 0\<rparr>) 90 0) = None \<and>
   fst (fivebar_rear_forward_kinematics (FiveBarRearLeg_init\<lparr>l2 := 1, l4 := 1\<rparr>) 90 90) = None \<and>
   fst (serial_forward_kinematics SerialLeg_init 90 0) = Some (0, 145)"
proof -
  note T = forward_kinematics_none_cases
  have l: "l1 FiveBarRearLeg_init = 45" "l2 FiveBarRearLeg_init = 45" "l3 FiveBarRearLeg_init = 50"
    "l4 FiveBarRearLeg_init = 45" "l1 FiveBarFrontLeg_init = 45" "l2 FiveBarFrontLeg_init = 45"
    "l3 FiveBarFrontLeg_init = 50" "l4 FiveBarFrontLeg_init = 45"
    by (simp_all add: FiveBarRearLeg_init_def FiveBarFrontLeg_init_def)
  have r1: "fst (fivebar_rear_forward_kinematics FiveBarRearLeg_init 90 90) \<noteq> None"
  proof -
    obtain b where b: "get_circle_intersection (rear_point_a FiveBarRearLeg_init 90) (l2 FiveBarRearLeg_init)
        (rear_point_c FiveBarRearLeg_init 90) (l4 FiveBarRearLeg_init) (- 1) = Some b"
      using rear_default_feasible by (auto simp: default_elbows_90 l)
    have "pnorm (psub (rear_point_c FiveBarRearLeg_init 90) b) = 45"
      using rear_norm_is_l4[OF b] by (simp add: l)
    with b T[of FiveBarRearLeg_init 90 90] show ?thesis by auto
  qed
  have f1: "fst (fivebar_front_forward_kinematics FiveBarFrontLeg_init 90 90) \<noteq> None"
  proof -
    obtain c where c: "get_circle_intersection (front_point_a FiveBarFrontLeg_init 90) (l4 FiveBarFrontLeg_init)
        (front_point_b FiveBarFrontLeg_init 90) (l3 FiveBarFrontLeg_init) (- 1) = Some c"
      using front_default_feasible by (auto simp: default_elbows_90 l)
    have "pnorm (psub c (front_point_a FiveBarFrontLeg_init 90)) = 45"
      using front_norm_is_l4[OF c] by (simp add: l)
    with c T[of FiveBarFrontLeg_init 90 90] show ?thesis by auto
  qed
  have p1: "fst (pantograph_forward_kinematics PantographLeg_init 90 0) \<noteq> None"
    using T[of _ 90 0 PantographLeg_init]
    by (simp add: pantograph_vec_shin_dir_def parallelogram_cancel pnorm_pol2cart PantographLeg_init_def)
  have p0: "fst (pantograph_forward_kinematics (PantographLeg_init\<lparr>l_crank := 0\<rparr>) 90 0) = None"
    using T[of _ 90 0 "PantographLeg_init\<lparr>l_crank := 0\<rparr>"]
    by (simp add: pantograph_vec_shin_dir_def parallelogram_cancel pnorm_pol2cart)
  have r0: "fst (fivebar_rear_forward_kinematics (FiveBarRearLeg_init\<lparr>l2 := 1, l4 := 1\<rparr>) 90 90) = None"
  proof -
    have a: "rear_point_a (FiveBarRearLeg_init\<lparr>l2 := 1, l4 := 1\<rparr>) 90 = (- 15, 35)"
      "rear_point_c (FiveBarRearLeg_init\<lparr>l2 := 1, l4 := 1\<rparr>) 90 = (0, 50)"
      by (simp_all add: rear_point_a_def rear_point_c_def FiveBarRearLeg_init_def radians_90
          pol2cart_def padd_def)
    have d: "pnorm (psub (- 15, 35) (0, 50)) = sqrt 450" by (simp add: pnorm_def psub_def)
    have "2 < sqrt 450" by (rule real_less_rsqrt) simp
    hence "get_circle_intersection (- 15, 35) 1 (0, 50) 1 (- 1) = None"
      unfolding gci_none_iff d by simp
    thus ?thesis using T[of "FiveBarRearLeg_init\<lparr>l2 := 1, l4 := 1\<rparr>" 90 90] by (simp add: a)
  qed
  have s1: "fst (serial_forward_kinematics SerialLeg_init 90 0) = Some (0, 145)"
    by (simp add: serial_forward_kinematics_def SerialLeg_init_def radians_90 radians_0
        pol2cart_def padd_def Let_def)
  note c2 = conjunct2
  note Tr = T[THEN c2, THEN c2, THEN c2, THEN c2, THEN conjunct1, rule_format]
  note Tf = T[THEN c2, THEN c2, THEN c2, THEN c2, THEN c2, THEN conjunct1, rule_format]
  note Tp = T[THEN c2, THEN c2, THEN c2, THEN c2, THEN c2, THEN c2, THEN conjunct1, rule_format]
  have r2: "snd (fivebar_rear_forward_kinematics FiveBarRearLeg_init 90 90) ''Foot''
     = fst (fivebar_rear_forward_kinematics FiveBarRearLeg_init 90 90)"
    using Tr[OF r1] by (rule conjunct2)
  have f2: "snd (fivebar_front_forward_kinematics FiveBarFrontLeg_init 90 90) ''Foot''
     = fst (fivebar_front_forward_kinematics FiveBarFrontLeg_init 90 90)"
    using Tf[OF f1] by (rule conjunct2)
  have p2: "snd (pantograph_forward_kinematics PantographLeg_init 90 0) ''Foot''
     = fst (pantograph_forward_kinematics PantographLeg_init 90 0)"
    using Tp[OF p1] by (rule conjunct2)
  show ?thesis
    by (intro conjI) (rule r1 r2 f1 f2 p1 p2 p0 r0 s1)+
qed

section \<open>Collision checks\<close>

lemma servo_loop_iff: "servo_loop s seg servos \<longleftrightarrow> (\<exists>servo\<in>set servos. hits_servo s seg servo)"
  by (induction servos) auto

lemma segment_loop_iff:
  "segment_loop s segments servos \<longleftrightarrow>
     (\<exists>seg\<in>set segments. \<exists>servo\<in>set servos. hits_servo s seg servo)"
  by (induction segments) (auto simp: servo_loop_iff)

lemma hits_servo_iff:
  "hits_servo s (p1, p2) servo \<longleftrightarrow>
     \<not> (pnorm (psub p1 servo) < 1 / 1000 \<or> pnorm (psub p2 servo) < 1 / 1000) \<and>
     dist_point_segment servo p1 p2 < collision_threshold s"
  by (simp add: hits_servo_def Let_def)

lemma rear_check_collisions_on_joints:
  assumes "joints ''S1'' = Some S1" "joints ''S2'' = Some S2" "joints ''A'' = Some A"
    "joints ''B'' = Some B" "joints ''C'' = Some C" "joints ''Foot'' = Some F"
  shows "fivebar_rear_check_collisions s joints =
     Inr ((\<exists>seg\<in>set [(S1, A), (S2, C), (A, B), (B, C), (C, F)]. \<exists>servo\<in>set [S1, S2].
             hits_servo s seg servo) \<or>
          min_dist_segments (S1, A) (S2, C) < collision_threshold s \<or>
          min_dist_segments (S1, A) (B, C) < collision_threshold s \<or>
          min_dist_segments (S2, C) (A, B) < collision_threshold s)"
  unfolding fivebar_rear_check_collisions_def Let_def segment_loop_iff
  by (simp add: assms getitem_def ebind_def del: set_simps list.set)

lemma front_check_collisions_on_joints:
  assumes "joints ''S1'' = Some S1" "joints ''S2'' = Some S2" "joints ''A'' = Some A"
    "joints ''B'' = Some B" "joints ''C'' = Some C" "joints ''Foot'' = Some F"
  shows "fivebar_front_check_collisions s joints =
     Inr ((\<exists>seg\<in>set [(S1, A), (S2, B), (A, C), (B, C), (C, F)]. \<exists>servo\<in>set [S1, S2].
             hits_servo s seg servo) \<or>
          min_dist_segments (S1, A) (S2, B) < collision_threshold s \<or>
          min_dist_segments (S1, A) (B, C) < collision_threshold s \<or>
          min_dist_segments (S2, B) (A, C) < collision_threshold s)"
  unfolding fivebar_front_check_collisions_def Let_def segment_loop_iff
  by (simp add: assms getitem_def ebind_def del: set_simps list.set)

lemma rear_fk_joint_values:
  assumes "fst (fivebar_rear_forward_kinematics s t1 t2) \<noteq> None"
  shows "\<exists>B F. snd (fivebar_rear_forward_kinematics s t1 t2) ''S1'' = Some (servo1_pos s) \<and>
           snd (fivebar_rear_forward_kinematics s t1 t2) ''S2'' = Some (servo2_pos s) \<and>
           snd (fivebar_rear_forward_kinematics s t1 t2) ''A'' = Some (rear_point_a s t1) \<and>
           snd (fivebar_rear_forward_kinematics s t1 t2) ''B'' = Some B \<and>
           snd (fivebar_rear_forward_kinematics s t1 t2) ''C'' = Some (rear_point_c s t2) \<and>
           snd (fivebar_rear_forward_kinematics s t1 t2) ''Foot'' = Some F \<and>
           fst (fivebar_rear_forward_kinematics s t1 t2) = Some F \<and>
           get_circle_intersection (rear_point_a s t1) (l2 s) (rear_point_c s t2) (l4 s) (- 1) = Some B"
  using assms unfolding rear_fk_cases by (auto split: option.splits if_splits)

lemma front_fk_joint_values:
  assumes "fst (fivebar_front_forward_kinematics s t1 t2) \<noteq> None"
  shows "\<exists>C F. snd (fivebar_front_forward_kinematics s t1 t2) ''S1'' = Some (servo1_pos s) \<and>
           snd (fivebar_front_forward_kinematics s t1 t2) ''S2'' = Some (servo2_pos s) \<and>
           snd (fivebar_front_forward_kinematics s t1 t2) ''A'' = Some (front_point_a s t1) \<and>
           snd (fivebar_front_forward_kinematics s t1 t2) ''B'' = Some (front_point_b s t2) \<and>
           snd (fivebar_front_forward_kinematics s t1 t2) ''C'' = Some C \<and>
           snd (fivebar_front_forward_kinematics s t1 t2) ''Foot'' = Some F \<and>
           fst (fivebar_front_forward_kinematics s t1 t2) = Some F \<and>
           get_circle_intersection (front_point_a s t1) (l4 s) (front_point_b s t2) (l3 s) (- 1) = Some C"
  using assms unfolding front_fk_cases by (auto split: option.splits if_splits)

lemma rear_default_fk_some: "fst (fivebar_rear_forward_kinematics FiveBarRearLeg_init 90 90) \<noteq> None"
proof -
  have l: "l2 FiveBarRearLeg_init = 45" "l4 FiveBarRearLeg_init = 45"
    by (simp_all add: FiveBarRearLeg_init_def)
  obtain b where b: "get_circle_intersection (rear_point_a FiveBarRearLeg_init 90) (l2 FiveBarRearLeg_init)
      (rear_point_c FiveBarRearLeg_init 90) (l4 FiveBarRearLeg_init) (- 1) = Some b"
    using rear_default_feasible by (auto simp: default_elbows_90 l)
  have "pnorm (psub (rear_point_c FiveBarRearLeg_init 90) b) = 45"
    using rear_norm_is_l4[OF b] by (simp add: l)
  with b show ?thesis unfolding rear_fk_none_iff by auto
qed

lemma front_default_fk_some: "fst (fivebar_front_forward_kinematics FiveBarFrontLeg_init 90 90) \<noteq> None"
proof -
  have l: "l3 FiveBarFrontLeg_init = 50" "l4 FiveBarFrontLeg_init = 45"
    by (simp_all add: FiveBarFrontLeg_init_def)
  obtain c where c: "get_circle_intersection (front_point_a FiveBarFrontLeg_init 90) (l4 FiveBarFrontLeg_init)
      (front_point_b FiveBarFrontLeg_init 90) (l3 FiveBarFrontLeg_init) (- 1) = Some c"
    using front_default_feasible by (auto simp: default_elbows_90 l)
  have "pnorm (psub c (front_point_a FiveBarFrontLeg_init 90)) = 45"
    using front_norm_is_l4[OF c] by (simp add: l)
  with c show ?thesis unfolding front_fk_none_iff by auto
qed

lemma serial_check_collisions_on_fk:
  "\<exists>foot. fst (serial_forward_kinematics q t1 t2) = Some foot \<and>
      serial_check_collisions q (snd (serial_forward_kinematics q t1 t2))
        = Inr (pnorm (psub foot (base_pos q)) < collision_threshold q)"
  unfolding serial_forward_kinematics_def serial_check_collisions_def Let_def
  by (simp add: getitem_def ebind_def)

lemma pnorm_y_axis: "pnorm (0, y) = \<bar>y\<bar>" by (simp add: pnorm_def)

text \<open>
  The pantograph's \<open>check_collisions\<close> reads the joints \<open>Knee\<close>, \<open>S2\<close> and
  \<open>CrankTip\<close> only, and its answer does not depend on the collision threshold: no segment
  is compared with a servo.
\<close>

lemma pantograph_check_reads_three_joints:
  assumes "joints' ''Knee'' = joints ''Knee''" and "joints' ''S2'' = joints ''S2''"
    and "joints' ''CrankTip'' = joints ''CrankTip''"
  shows "pantograph_check_collisions s joints' = pantograph_check_collisions s joints"
  using assms by (simp add: pantograph_check_collisions_def getitem_def)

lemma pantograph_check_ignores_threshold:
  "pantograph_check_collisions (s\<lparr>collision_threshold := t\<rparr>) joints
     = pantograph_check_collisions s joints"
  by (simp add: pantograph_check_collisions_def)

text \<open>
  The serial leg tests no segment. At \<open>(0, 180)\<close> the default serial leg folds back over
  itself: the shin from the knee \<open>(50, 0)\<close> to the foot \<open>(-45, 0)\<close> passes through the
  base servo at distance \<open>0\<close>, neither end of it lies within \<open>1e-3\<close> of the base, and
  \<open>check_collisions\<close> still answers \<open>False\<close>, since it compares the foot-base distance
  only.
\<close>

theorem serial_segment_untested_counterexample:
  "snd (serial_forward_kinematics SerialLeg_init 0 180) ''Base'' = Some (0, 0) \<and>
   snd (serial_forward_kinematics SerialLeg_init 0 180) ''Knee'' = Some (50, 0) \<and>
   snd (serial_forward_kinematics SerialLeg_init 0 180) ''Foot'' = Some (- 45, 0) \<and>
   \<not> pnorm (psub (50, 0) (0, 0)) < 1 / 1000 \<and>
   \<not> pnorm (psub (- 45, 0) (0, 0)) < 1 / 1000 \<and>
   dist_point_segment (0, 0) (50, 0) (- 45, 0) = 0 \<and>
   dist_point_segment (0, 0) (50, 0) (- 45, 0) < collision_threshold SerialLeg_init \<and>
   serial_check_collisions SerialLeg_init (snd (serial_forward_kinematics SerialLeg_init 0 180))
     = Inr False"
proof -
  have j: "snd (serial_forward_kinematics SerialLeg_init 0 180)
         = [''Base'' \<mapsto> (0, 0), ''Knee'' \<mapsto> (50, 0), ''Foot'' \<mapsto> (- 45, 0)]"
    by (simp add: serial_forward_kinematics_def SerialLeg_init_def radians_180 radians_0
        pol2cart_def padd_def Let_def)
  have n1: "pnorm (psub (50, 0) (0, 0)) = 50" by (simp add: psub_def pnorm_x_axis)
  have n2: "pnorm (psub (- 45, 0) (0, 0)) = 45" by (simp add: psub_def pnorm_x_axis)
  have d: "dist_point_segment (0, 0) (50, 0) (- 45, 0) = 0"
    by (simp add: dist_point_segment_def psub_def padd_def pscale_def pdot_def Let_def pnorm_def)
  have c: "serial_check_collisions SerialLeg_init [''Base'' \<mapsto> (0, 0), ''Knee'' \<mapsto> (50, 0), ''Foot'' \<mapsto> (- 45, 0)]
         = Inr False"
    by (simp add: serial_check_collisions_def getitem_def ebind_def n2 SerialLeg_init_def)
  show ?thesis unfolding j n1 n2 d c by (simp add: SerialLeg_init_def)
qed

text \<open>
  C2. For the two five-bar legs and every joint set that their forward kinematics
  returns with a foot point, \<open>check_collisions\<close> returns without error, and returns true
  exactly when one of the five rigid segments hits one of the two servo pivots or one of the
  three listed link pairs is closer than the collision threshold. A segment hits a servo when
  neither of its end points lies within \<open>1e-3\<close> of the servo and the point-segment distance
  from the servo is below the threshold. The serial leg compares the foot-base distance with
  its threshold and tests no segment.
\<close>

theorem fivebar_check_collisions_tests_all_pairs:
  "(fst (fivebar_rear_forward_kinematics s t1 t2) \<noteq> None \<longrightarrow>
      (\<exists>S1 S2 A B C F.
         snd (fivebar_rear_forward_kinematics s t1 t2) ''S1'' = Some S1 \<and>
         snd (fivebar_rear_forward_kinematics s t1 t2) ''S2'' = Some S2 \<and>
         snd (fivebar_rear_forward_kinematics s t1 t2) ''A'' = Some A \<and>
         snd (fivebar_rear_forward_kinematics s t1 t2) ''B'' = Some B \<and>
         snd (fivebar_rear_forward_kinematics s t1 t2) ''C'' = Some C \<and>
         snd (fivebar_rear_forward_kinematics s t1 t2) ''Foot'' = Some F \<and>
         fivebar_rear_check_collisions s (snd (fivebar_rear_forward_kinematics s t1 t2)) =
           Inr ((\<exists>seg\<in>set [(S1, A), (S2, C), (A, B), (B, C), (C, F)]. \<exists>servo\<in>set [S1, S2].
                  hits_servo s seg servo) \<or>
                min_dist_segments (S1, A) (S2, C) < collision_threshold s \<or>
                min_dist_segments (S1, A) (B, C) < collision_threshold s \<or>
                min_dist_segments (S2, C) (A, B) < collision_threshold s))) \<and>
   (fst (fivebar_front_forward_kinematics s t1 t2) \<noteq> None \<longrightarrow>
      (\<exists>S1 S2 A B C F.
         snd (fivebar_front_forward_kinematics s t1 t2) ''S1'' = Some S1 \<and>
         snd (fivebar_front_forward_kinematics s t1 t2) ''S2'' = Some S2 \<and>
         snd (fivebar_front_forward_kinematics s t1 t2) ''A'' = Some A \<and>
         snd (fivebar_front_forward_kinematics s t1 t2) ''B'' = Some B \<and>
         snd (fivebar_front_forward_kinematics s t1 t2) ''C'' = Some C \<and>
         snd (fivebar_front_forward_kinematics s t1 t2) ''Foot'' = Some F \<and>
         fivebar_front_check_collisions s (snd (fivebar_front_forward_kinematics s t1 t2)) =
           Inr ((\<exists>seg\<in>set [(S1, A), (S2, B), (A, C), (B, C), (C, F)]. \<exists>servo\<in>set [S1, S2].
                  hits_servo s seg servo) \<or>
                min_dist_segments (S1, A) (S2, B) < collision_threshold s \<or>
                min_dist_segments (S1, A) (B, C) < collision_threshold s \<or>
                min_dist_segments (S2, B) (A, C) < collision_threshold s))) \<and>
   (\<forall>p1 p2 servo. hits_servo s (p1, p2) servo \<longleftrightarrow>
      \<not> (pnorm (psub p1 servo) < 1 / 1000 \<or> pnorm (psub p2 servo) < 1 / 1000) \<and>
      dist_point_segment servo p1 p2 < collision_threshold s) \<and>
   (\<exists>foot. fst (serial_forward_kinematics q t1 t2) = Some foot \<and>
      serial_check_collisions q (snd (serial_forward_kinematics q t1 t2))
        = Inr (pnorm (psub foot (base_pos q)) < collision_threshold q))"
proof (intro conjI impI allI)
  assume a: "fst (fivebar_rear_forward_kinematics s t1 t2) \<noteq> None"
  from rear_fk_joint_values[OF a] obtain B F where
    j: "snd (fivebar_rear_forward_kinematics s t1 t2) ''S1'' = Some (servo1_pos s)"
       "snd (fivebar_rear_forward_kinematics s t1 t2) ''S2'' = Some (servo2_pos s)"
       "snd (fivebar_rear_forward_kinematics s t1 t2) ''A'' = Some (rear_point_a s t1)"
       "snd (fivebar_rear_forward_kinematics s t1 t2) ''B'' = Some B"
       "snd (fivebar_rear_forward_kinematics s t1 t2) ''C'' = Some (rear_point_c s t2)"
       "snd (fivebar_rear_forward_kinematics s t1 t2) ''Foot'' = Some F"
    by blast
  from j rear_check_collisions_on_joints[OF j, of s]
  show "\<exists>S1 S2 A B C F.
         snd (fivebar_rear_forward_kinematics s t1 t2) ''S1'' = Some S1 \<and>
         snd (fivebar_rear_forward_kinematics s t1 t2) ''S2'' = Some S2 \<and>
         snd (fivebar_rear_forward_kinematics s t1 t2) ''A'' = Some A \<and>
         snd (fivebar_rear_forward_kinematics s t1 t2) ''B'' = Some B \<and>
         snd (fivebar_rear_forward_kinematics s t1 t2) ''C'' = Some C \<and>
         snd (fivebar_rear_forward_kinematics s t1 t2) ''Foot'' = Some F \<and>
         fivebar_rear_check_collisions s (snd (fivebar_rear_forward_kinematics s t1 t2)) =
           Inr ((\<exists>seg\<in>set [(S1, A), (S2, C), (A, B), (B, C), (C, F)]. \<exists>servo\<in>set [S1, S2].
                  hits_servo s seg servo) \<or>
                min_dist_segments (S1, A) (S2, C) < collision_threshold s \<or>
                min_dist_segments (S1, A) (B, C) < collision_threshold s \<or>
                min_dist_segments (S2, C) (A, B) < collision_threshold s)"
    by (intro exI conjI)
next
  assume a: "fst (fivebar_front_forward_kinematics s t1 t2) \<noteq> None"
  from front_fk_joint_values[OF a] obtain C F where
    j: "snd (fivebar_front_forward_kinematics s t1 t2) ''S1'' = Some (servo1_pos s)"
       "snd (fivebar_front_forward_kinematics s t1 t2) ''S2'' = Some (servo2_pos s)"
       "snd (fivebar_front_forward_kinematics s t1 t2) ''A'' = Some (front_point_a s t1)"
       "snd (fivebar_front_forward_kinematics s t1 t2) ''B'' = Some (front_point_b s t2)"
       "snd (fivebar_front_forward_kinematics s t1 t2) ''C'' = Some C"
       "snd (fivebar_front_forward_kinematics s t1 t2) ''Foot'' = Some F"
    by blast
  from j front_check_collisions_on_joints[OF j, of s]
  show "\<exists>S1 S2 A B C F.
         snd (fivebar_front_forward_kinematics s t1 t2) ''S1'' = Some S1 \<and>
         snd (fivebar_front_forward_kinematics s t1 t2) ''S2'' = Some S2 \<and>
         snd (fivebar_front_forward_kinematics s t1 t2) ''A'' = Some A \<and>
         snd (fivebar_front_forward_kinematics s t1 t2) ''B'' = Some B \<and>
         snd (fivebar_front_forward_kinematics s t1 t2) ''C'' = Some C \<and>
         snd (fivebar_front_forward_kinematics s t1 t2) ''Foot'' = Some F \<and>
         fivebar_front_check_collisions s (snd (fivebar_front_forward_kinematics s t1 t2)) =
           Inr ((\<exists>seg\<in>set [(S1, A), (S2, B), (A, C), (B, C), (C, F)]. \<exists>servo\<in>set [S1, S2].
                  hits_servo s seg servo) \<or>
                min_dist_segments (S1, A) (S2, B) < collision_threshold s \<or>
                min_dist_segments (S1, A) (B, C) < collision_threshold s \<or>
                min_dist_segments (S2, B) (A, C) < collision_threshold s)"
    by (intro exI conjI)
next
  fix p1 p2 servo
  show "hits_servo s (p1, p2) servo \<longleftrightarrow>
      \<not> (pnorm (psub p1 servo) < 1 / 1000 \<or> pnorm (psub p2 servo) < 1 / 1000) \<and>
      dist_point_segment servo p1 p2 < collision_threshold s"
    by (rule hits_servo_iff)
next
  show "\<exists>foot. fst (serial_forward_kinematics q t1 t2) = Some foot \<and>
      serial_check_collisions q (snd (serial_forward_kinematics q t1 t2))
        = Inr (pnorm (psub foot (base_pos q)) < collision_threshold q)"
    by (rule serial_check_collisions_on_fk)
qed

text \<open>The default five-bar legs at \<open>(90, 90)\<close> and the default serial leg at \<open>(90, 0)\<close>.\<close>

theorem fivebar_check_collisions_tests_all_pairs_witness:
  "fst (fivebar_rear_forward_kinematics FiveBarRearLeg_init 90 90) \<noteq> None \<and>
   (\<exists>S1 S2 A B C F.
      snd (fivebar_rear_forward_kinematics FiveBarRearLeg_init 90 90) ''S1'' = Some S1 \<and>
      snd (fivebar_rear_forward_kinematics FiveBarRearLeg_init 90 90) ''S2'' = Some S2 \<and>
      snd (fivebar_rear_forward_kinematics FiveBarRearLeg_init 90 90) ''A'' = Some A \<and>
      snd (fivebar_rear_forward_kinematics FiveBarRearLeg_init 90 90) ''B'' = Some B \<and>
      snd (fivebar_rear_forward_kinematics FiveBarRearLeg_init 90 90) ''C'' = Some C \<and>
      snd (fivebar_rear_forward_kinematics FiveBarRearLeg_init 90 90) ''Foot'' = Some F \<and>
      fivebar_rear_check_collisions FiveBarRearLeg_init
          (snd (fivebar_rear_forward_kinematics FiveBarRearLeg_init 90 90)) =
        Inr ((\<exists>seg\<in>set [(S1, A), (S2, C), (A, B), (B, C), (C, F)]. \<exists>servo\<in>set [S1, S2].
               hits_servo FiveBarRearLeg_init seg servo) \<or>
             min_dist_segments (S1, A) (S2, C) < collision_threshold FiveBarRearLeg_init \<or>
             min_dist_segments (S1, A) (B, C) < collision_threshold FiveBarRearLeg_init \<or>
             min_dist_segments (S2, C) (A, B) < collision_threshold FiveBarRearLeg_init)) \<and>
   fst (fivebar_front_forward_kinematics FiveBarFrontLeg_init 90 90) \<noteq> None \<and>
   (\<exists>b. fivebar_front_check_collisions FiveBarFrontLeg_init
          (snd (fivebar_front_forward_kinematics FiveBarFrontLeg_init 90 90)) = Inr b) \<and>
   serial_check_collisions SerialLeg_init (snd (serial_forward_kinematics SerialLeg_init 90 0))
     = Inr False"
proof -
  note T = fivebar_check_collisions_tests_all_pairs
  note c2 = conjunct2
  have r: "fst (fivebar_rear_forward_kinematics FiveBarRearLeg_init 90 90) \<noteq> None"
    by (rule rear_default_fk_some)
  have f: "fst (fivebar_front_forward_kinematics FiveBarFrontLeg_init 90 90) \<noteq> None"
    by (rule front_default_fk_some)
  note Tr = T[of FiveBarRearLeg_init 90 90, THEN conjunct1, rule_format, OF r]
  note Tf = T[of FiveBarFrontLeg_init 90 90, THEN c2, THEN conjunct1, rule_format, OF f]
  have fb: "\<exists>b. fivebar_front_check_collisions FiveBarFrontLeg_init
          (snd (fivebar_front_forward_kinematics FiveBarFrontLeg_init 90 90)) = Inr b"
    using Tf by blast
  have foot: "fst (serial_forward_kinematics SerialLeg_init 90 0) = Some (0, 145)"
    by (simp add: serial_forward_kinematics_def SerialLeg_init_def radians_90 radians_0
        pol2cart_def padd_def Let_def)
  obtain ft where ft: "fst (serial_forward_kinematics SerialLeg_init 90 0) = Some ft"
    and cc: "serial_check_collisions SerialLeg_init (snd (serial_forward_kinematics SerialLeg_init 90 0))
        = Inr (pnorm (psub ft (base_pos SerialLeg_init)) < collision_threshold SerialLeg_init)"
    using T[of _ 90 0 SerialLeg_init, THEN c2, THEN c2, THEN c2] by blast
  have "ft = (0, 145)" using ft foot by simp
  hence se: "serial_check_collisions SerialLeg_init (snd (serial_forward_kinematics SerialLeg_init 90 0))
     = Inr False"
    using cc by (simp add: SerialLeg_init_def psub_def pnorm_y_axis)
  show ?thesis
    by (intro conjI) (rule r Tr f fb se)+
qed

section \<open>Workspace scan\<close>

lemma scan_keep_simps:
  "forward_kinematics m t1 t2 = (None, j) \<Longrightarrow> scan_keep m (t1, t2) = []"
  "forward_kinematics m t1 t2 = (Some p, j) \<Longrightarrow> check_collisions m j = Inr False \<Longrightarrow>
     scan_keep m (t1, t2) = [p]"
  "forward_kinematics m t1 t2 = (Some p, j) \<Longrightarrow> check_collisions m j \<noteq> Inr False \<Longrightarrow>
     scan_keep m (t1, t2) = []"
  by (simp_all add: scan_keep_def)

lemma theta2_loop_result:
  "theta2_loop m theta1 ts pts = Inr r \<Longrightarrow>
     r = pts @ concat (map (\<lambda>theta2. scan_keep m (theta1, theta2)) ts)"
proof (induction ts arbitrary: pts)
  case Nil
  then show ?case by simp
next
  case (Cons t ts)
  obtain ee j where fk: "forward_kinematics m theta1 t = (ee, j)" by (cases "forward_kinematics m theta1 t")
  show ?case
  proof (cases ee)
    case None
    with Cons.prems fk have "theta2_loop m theta1 ts pts = Inr r" by simp
    from Cons.IH[OF this] fk None show ?thesis by (simp add: scan_keep_simps(1))
  next
    case (Some p)
    note fk' = fk[unfolded Some]
    show ?thesis
    proof (cases "check_collisions m j")
      case (Inl e)
      with Cons.prems fk' show ?thesis by simp
    next
      case (Inr c)
      show ?thesis
      proof (cases c)
        case True
        with Cons.prems fk' Inr have "theta2_loop m theta1 ts pts = Inr r" by simp
        from Cons.IH[OF this] fk' Inr True show ?thesis by (simp add: scan_keep_simps(3))
      next
        case False
        with Cons.prems fk' Inr have "theta2_loop m theta1 ts (pts @ [p]) = Inr r" by simp
        from Cons.IH[OF this] fk' Inr False show ?thesis by (simp add: scan_keep_simps(2))
      qed
    qed
  qed
qed

lemma theta1_loop_result:
  "theta1_loop m t1s ts pts = Inr r \<Longrightarrow>
     r = pts @ concat (map (scan_keep m) (List.product t1s ts))"
proof (induction t1s arbitrary: pts)
  case Nil
  then show ?case by simp
next
  case (Cons t t1s)
  from Cons.prems obtain mid where mid: "theta2_loop m t ts pts = Inr mid"
    and rest: "theta1_loop m t1s ts mid = Inr r"
    by (auto split: sum.splits)
  from theta2_loop_result[OF mid] Cons.IH[OF rest]
  show ?case by (simp add: comp_def)
qed

lemma scan_keep_sound:
  "p \<in> set (scan_keep m (t1, t2)) \<Longrightarrow>
     \<exists>joints. forward_kinematics m t1 t2 = (Some p, joints) \<and> check_collisions m joints = Inr False"
  by (cases "forward_kinematics m t1 t2"; cases "fst (forward_kinematics m t1 t2)")
     (auto simp: scan_keep_def split: if_splits)

lemma mult_div_cancel: "(k::real) \<noteq> 0 \<Longrightarrow> k * (c / k) = c"
  by simp

lemma linspace_result:
  assumes "linspace 0 180 n = Inr sr"
  shows "0 \<le> n \<and> length sr = nat n \<and>
         (\<forall>i<nat n. sr ! i = (if n = 1 then 0 else real i * (180 / real (nat n - 1))) \<and>
                    0 \<le> sr ! i \<and> sr ! i \<le> 180) \<and>
         (2 \<le> n \<longrightarrow> sr ! 0 = 0 \<and> sr ! (nat n - 1) = 180)"
proof -
  from assms have n0: "0 \<le> n" by (auto simp: linspace_def split: if_splits)
  show ?thesis
  proof (cases "n = 1")
    case True
    with assms show ?thesis by (auto simp: linspace_def)
  next
    case False
    with assms n0 have sr: "sr = map (\<lambda>i. 0 + real i * ((180 - 0) / real (nat n - 1))) [0..<nat n]"
      by (auto simp: linspace_def split: if_splits)
    have len: "length sr = nat n" by (simp add: sr)
    have el: "\<And>i. i < nat n \<Longrightarrow> sr ! i = real i * (180 / real (nat n - 1))"
      by (simp add: sr)
    have bnd: "\<And>i. i < nat n \<Longrightarrow> 0 \<le> sr ! i \<and> sr ! i \<le> 180"
    proof -
      fix i assume i: "i < nat n"
      hence pos: "0 < nat n - 1 \<or> i = 0" by auto
      have "real i \<le> real (nat n - 1)" using i by simp
      hence "real i * (180 / real (nat n - 1)) \<le> 180"
        using pos by (auto simp: field_simps)
      moreover have "0 \<le> real i * (180 / real (nat n - 1))" by simp
      ultimately show "0 \<le> sr ! i \<and> sr ! i \<le> 180" using el[OF i] by simp
    qed
    have ends: "2 \<le> n \<longrightarrow> sr ! 0 = 0 \<and> sr ! (nat n - 1) = 180"
    proof
      assume "2 \<le> n"
      hence a: "0 < nat n" "nat n - 1 < nat n" "real (nat n - 1) \<noteq> 0" by auto
      have z: "sr ! 0 = 0" using el[OF a(1)] by simp
      have "sr ! (nat n - 1) = real (nat n - 1) * (180 / real (nat n - 1))" by (rule el[OF a(2)])
      also have "\<dots> = 180" by (rule mult_div_cancel[OF a(3)])
      finally show "sr ! 0 = 0 \<and> sr ! (nat n - 1) = 180" using z by simp
    qed
    from n0 len el bnd ends False show ?thesis by simp
  qed
qed

lemma theta2_loop_completes:
  assumes "cc_safe m"
  shows "\<exists>r. theta2_loop m theta1 ts pts = Inr r"
proof (induction ts arbitrary: pts)
  case Nil
  show ?case by simp
next
  case (Cons t ts)
  obtain ee j where fk: "forward_kinematics m theta1 t = (ee, j)" by (cases "forward_kinematics m theta1 t")
  show ?case
  proof (cases ee)
    case None
    with fk Cons.IH[of pts] show ?thesis by simp
  next
    case (Some p)
    with fk assms obtain b where "check_collisions m j = Inr b" unfolding cc_safe_def by blast
    with fk Some Cons.IH[of pts] Cons.IH[of "pts @ [p]"] show ?thesis by simp
  qed
qed

lemma theta1_loop_completes:
  assumes "cc_safe m"
  shows "\<exists>r. theta1_loop m t1s ts pts = Inr r"
proof (induction t1s arbitrary: pts)
  case Nil
  show ?case by simp
next
  case (Cons t t1s)
  from theta2_loop_completes[OF assms, of t ts pts] obtain mid where
    "theta2_loop m t ts pts = Inr mid" by blast
  with Cons.IH[of mid] show ?case by simp
qed

lemma serial_cc_safe: "cc_safe (serial_ops s)"
  unfolding cc_safe_def serial_ops_def
  by (auto simp: serial_forward_kinematics_def serial_check_collisions_def Let_def getitem_def ebind_def)

lemma pantograph_cc_safe: "cc_safe (pantograph_ops s)"
  unfolding cc_safe_def pantograph_ops_def
  by (auto simp: pantograph_forward_kinematics_def pantograph_check_collisions_def Let_def
      getitem_def ebind_def split: if_splits)

lemma fivebar_rear_cc_safe: "cc_safe (fivebar_rear_ops s)"
  unfolding cc_safe_def fivebar_rear_ops_def
proof (intro allI impI)
  fix t1 t2 p j
  assume "forward_kinematics \<lparr>forward_kinematics = fivebar_rear_forward_kinematics s,
            check_collisions = fivebar_rear_check_collisions s\<rparr> t1 t2 = (Some p, j)"
  hence fk: "fivebar_rear_forward_kinematics s t1 t2 = (Some p, j)" by simp
  hence ne: "fst (fivebar_rear_forward_kinematics s t1 t2) \<noteq> None" by simp
  from rear_fk_joint_values[OF ne] fk obtain B F where
    "j ''S1'' = Some (servo1_pos s)" "j ''S2'' = Some (servo2_pos s)"
    "j ''A'' = Some (rear_point_a s t1)" "j ''B'' = Some B"
    "j ''C'' = Some (rear_point_c s t2)" "j ''Foot'' = Some F"
    by auto
  from rear_check_collisions_on_joints[OF this, of s]
  show "\<exists>b. check_collisions \<lparr>forward_kinematics = fivebar_rear_forward_kinematics s,
            check_collisions = fivebar_rear_check_collisions s\<rparr> j = Inr b"
    by simp
qed

lemma fivebar_front_cc_safe: "cc_safe (fivebar_front_ops s)"
  unfolding cc_safe_def fivebar_front_ops_def
proof (intro allI impI)
  fix t1 t2 p j
  assume "forward_kinematics \<lparr>forward_kinematics = fivebar_front_forward_kinematics s,
            check_collisions = fivebar_front_check_collisions s\<rparr> t1 t2 = (Some p, j)"
  hence fk: "fivebar_front_forward_kinematics s t1 t2 = (Some p, j)" by simp
  hence ne: "fst (fivebar_front_forward_kinematics s t1 t2) \<noteq> None" by simp
  from front_fk_joint_values[OF ne] fk obtain C F where
    "j ''S1'' = Some (servo1_pos s)" "j ''S2'' = Some (servo2_pos s)"
    "j ''A'' = Some (front_point_a s t1)" "j ''B'' = Some (front_point_b s t2)"
    "j ''C'' = Some C" "j ''Foot'' = Some F"
    by auto
  from front_check_collisions_on_joints[OF this, of s]
  show "\<exists>b. check_collisions \<lparr>forward_kinematics = fivebar_front_forward_kinematics s,
            check_collisions = fivebar_front_check_collisions s\<rparr> j = Inr b"
    by simp
qed

lemma linspace_nonneg: "0 \<le> n \<Longrightarrow> \<exists>sr. linspace a b n = Inr sr"
  by (simp add: linspace_def)

lemma workspace_scan_sound:
  assumes "get_workspace m delaunay resolution = Inr (xs, ys, area, hull_lines)"
  shows "\<exists>scan_range.
           linspace 0 180 resolution = Inr scan_range \<and> 0 \<le> resolution \<and>
           length scan_range = nat resolution \<and>
           (\<forall>i<nat resolution.
               scan_range ! i = (if resolution = 1 then 0
                                 else real i * (180 / real (nat resolution - 1))) \<and>
               0 \<le> scan_range ! i \<and> scan_range ! i \<le> 180) \<and>
           (2 \<le> resolution \<longrightarrow> scan_range ! 0 = 0 \<and> scan_range ! (nat resolution - 1) = 180) \<and>
           length (List.product scan_range scan_range) = (nat resolution)\<^sup>2 \<and>
           zip xs ys = concat (map (scan_keep m) (List.product scan_range scan_range)) \<and>
           (\<forall>p\<in>set (zip xs ys). \<exists>theta1\<in>set scan_range. \<exists>theta2\<in>set scan_range. \<exists>joints.
               forward_kinematics m theta1 theta2 = (Some p, joints) \<and>
               check_collisions m joints = Inr False)"
proof -
  from assms obtain sr where sr: "linspace 0 180 resolution = Inr sr"
    by (cases "linspace 0 180 resolution") (simp_all add: get_workspace_def ebind_def)
  from assms sr obtain pts where pts: "theta1_loop m sr sr [] = Inr pts"
    by (cases "theta1_loop m sr sr []") (simp_all add: get_workspace_def ebind_def)
  have xy: "zip xs ys = pts"
  proof (cases "pts = []")
    case True
    with assms sr pts show ?thesis by (simp add: get_workspace_def ebind_def)
  next
    case False
    with assms sr pts have "xs = map fst pts \<and> ys = map snd pts"
      by (auto simp: get_workspace_def ebind_def split: sum.splits prod.splits)
    thus ?thesis by (simp add: zip_map_fst_snd)
  qed
  have eq: "zip xs ys = concat (map (scan_keep m) (List.product sr sr))"
    using theta1_loop_result[OF pts] xy by simp
  have snd: "\<forall>p\<in>set (zip xs ys). \<exists>theta1\<in>set sr. \<exists>theta2\<in>set sr. \<exists>joints.
               forward_kinematics m theta1 theta2 = (Some p, joints) \<and>
               check_collisions m joints = Inr False"
  proof
    fix p assume "p \<in> set (zip xs ys)"
    then obtain tt where tt: "tt \<in> set (List.product sr sr)" and p: "p \<in> set (scan_keep m tt)"
      unfolding eq by auto
    obtain t1 t2 where t: "tt = (t1, t2)" by (cases tt)
    from tt t have "t1 \<in> set sr" "t2 \<in> set sr" by auto
    with scan_keep_sound[OF p[unfolded t]]
    show "\<exists>theta1\<in>set sr. \<exists>theta2\<in>set sr. \<exists>joints.
               forward_kinematics m theta1 theta2 = (Some p, joints) \<and>
               check_collisions m joints = Inr False"
      by blast
  qed
  note L = linspace_result[OF sr]
  have len2: "length (List.product sr sr) = (nat resolution)\<^sup>2"
    using L by (simp add: power2_eq_square)
  from sr L len2 eq snd show ?thesis by blast
qed

text \<open>
  C6. \<open>get_workspace resolution\<close> runs the forward kinematics over the
  \<open>resolution * resolution\<close> combinations of \<open>theta1\<close> and \<open>theta2\<close>, each ranging
  independently over the \<open>resolution\<close> evenly spaced samples of \<open>[0, 180]\<close> (first sample
  \<open>0\<close>, last sample \<open>180\<close> from two samples on), and the returned point cloud is, in scan
  order, the foot points of the combinations where the forward kinematics returned a foot
  point and \<open>check_collisions\<close> returned false on the joint set. For the four legs of the
  repository the scan never raises.
\<close>

theorem workspace_scan:
  "(get_workspace m delaunay resolution = Inr (xs, ys, area, hull_lines) \<longrightarrow>
      (\<exists>scan_range.
           linspace 0 180 resolution = Inr scan_range \<and> 0 \<le> resolution \<and>
           length scan_range = nat resolution \<and>
           (\<forall>i<nat resolution.
               scan_range ! i = (if resolution = 1 then 0
                                 else real i * (180 / real (nat resolution - 1))) \<and>
               0 \<le> scan_range ! i \<and> scan_range ! i \<le> 180) \<and>
           (2 \<le> resolution \<longrightarrow> scan_range ! 0 = 0 \<and> scan_range ! (nat resolution - 1) = 180) \<and>
           length (List.product scan_range scan_range) = (nat resolution)\<^sup>2 \<and>
           zip xs ys = concat (map (scan_keep m) (List.product scan_range scan_range)) \<and>
           (\<forall>p\<in>set (zip xs ys). \<exists>theta1\<in>set scan_range. \<exists>theta2\<in>set scan_range. \<exists>joints.
               forward_kinematics m theta1 theta2 = (Some p, joints) \<and>
               check_collisions m joints = Inr False))) \<and>
   (0 \<le> resolution \<and>
    (m = serial_ops s \<or> m = pantograph_ops p \<or> m = fivebar_rear_ops r \<or> m = fivebar_front_ops f) \<longrightarrow>
      (\<exists>scan_range points. linspace 0 180 resolution = Inr scan_range \<and>
           theta1_loop m scan_range scan_range [] = Inr points))"
proof (intro conjI impI)
  assume "get_workspace m delaunay resolution = Inr (xs, ys, area, hull_lines)"
  thus "\<exists>scan_range.
           linspace 0 180 resolution = Inr scan_range \<and> 0 \<le> resolution \<and>
           length scan_range = nat resolution \<and>
           (\<forall>i<nat resolution.
               scan_range ! i = (if resolution = 1 then 0
                                 else real i * (180 / real (nat resolution - 1))) \<and>
               0 \<le> scan_range ! i \<and> scan_range ! i \<le> 180) \<and>
           (2 \<le> resolution \<longrightarrow> scan_range ! 0 = 0 \<and> scan_range ! (nat resolution - 1) = 180) \<and>
           length (List.product scan_range scan_range) = (nat resolution)\<^sup>2 \<and>
           zip xs ys = concat (map (scan_keep m) (List.product scan_range scan_range)) \<and>
           (\<forall>p\<in>set (zip xs ys). \<exists>theta1\<in>set scan_range. \<exists>theta2\<in>set scan_range. \<exists>joints.
               forward_kinematics m theta1 theta2 = (Some p, joints) \<and>
               check_collisions m joints = Inr False)"
    by (rule workspace_scan_sound)
next
  assume a: "0 \<le> resolution \<and>
    (m = serial_ops s \<or> m = pantograph_ops p \<or> m = fivebar_rear_ops r \<or> m = fivebar_front_ops f)"
  hence "cc_safe m"
    using serial_cc_safe pantograph_cc_safe fivebar_rear_cc_safe fivebar_front_cc_safe by blast
  from a linspace_nonneg[of resolution 0 180] obtain sr where sr: "linspace 0 180 resolution = Inr sr"
    by blast
  with theta1_loop_completes[OF \<open>cc_safe m\<close>, of sr sr "[]"]
  show "\<exists>scan_range points. linspace 0 180 resolution = Inr scan_range \<and>
           theta1_loop m scan_range scan_range [] = Inr points"
    by blast
qed

lemma linspace_2: "linspace 0 180 2 = Inr [0, 180]"
  by (simp add: linspace_def upt_rec)

lemma serial_default_fk:
  "serial_forward_kinematics SerialLeg_init 0 0
     = (Some (145, 0), [''Base'' \<mapsto> (0, 0), ''Knee'' \<mapsto> (50, 0), ''Foot'' \<mapsto> (145, 0)])"
  "serial_forward_kinematics SerialLeg_init 0 180
     = (Some (- 45, 0), [''Base'' \<mapsto> (0, 0), ''Knee'' \<mapsto> (50, 0), ''Foot'' \<mapsto> (- 45, 0)])"
  "serial_forward_kinematics SerialLeg_init 180 0
     = (Some (- 145, 0), [''Base'' \<mapsto> (0, 0), ''Knee'' \<mapsto> (- 50, 0), ''Foot'' \<mapsto> (- 145, 0)])"
  "serial_forward_kinematics SerialLeg_init 180 180
     = (Some (45, 0), [''Base'' \<mapsto> (0, 0), ''Knee'' \<mapsto> (- 50, 0), ''Foot'' \<mapsto> (45, 0)])"
  by (simp_all add: serial_forward_kinematics_def SerialLeg_init_def radians_180 radians_0
      pol2cart_def padd_def Let_def)

lemma serial_default_cc:
  "serial_check_collisions SerialLeg_init [''Base'' \<mapsto> (0, 0), ''Knee'' \<mapsto> k, ''Foot'' \<mapsto> (x, 0)]
     = Inr (\<bar>x\<bar> < 10)"
  by (simp add: serial_check_collisions_def getitem_def ebind_def SerialLeg_init_def psub_def pnorm_x_axis)

lemma serial_default_scan:
  "theta1_loop (serial_ops SerialLeg_init) [0, 180] [0, 180] []
     = Inr [(145, 0), (- 45, 0), (- 145, 0), (45, 0)]"
  by (simp add: serial_ops_def serial_default_fk serial_default_cc)

lemma serial_default_workspace:
  "get_workspace (serial_ops SerialLeg_init) (\<lambda>pts. []) 2
     = Inr ([145, - 45, - 145, 45], [0, 0, 0, 0], 0, {#})"
  by (simp add: get_workspace_def linspace_2 serial_default_scan ebind_def calculate_concave_hull_def
      del: theta1_loop.simps theta2_loop.simps)

text \<open>
  The default serial leg at resolution \<open>2\<close>: four combinations, four kept foot points.
\<close>

theorem workspace_scan_witness:
  "get_workspace (serial_ops SerialLeg_init) (\<lambda>pts. []) 2
     = Inr ([145, - 45, - 145, 45], [0, 0, 0, 0], 0, {#}) \<and>
   length (List.product [0, 180 :: real] [0, 180 :: real]) = (nat 2)\<^sup>2 \<and>
   zip [145, - 45, - 145, 45] [0, 0, 0, 0]
     = concat (map (scan_keep (serial_ops SerialLeg_init)) (List.product [0, 180] [0, 180])) \<and>
   (\<exists>scan_range points. linspace 0 180 2 = Inr scan_range \<and>
       theta1_loop (fivebar_rear_ops FiveBarRearLeg_init) scan_range scan_range [] = Inr points)"
proof -
  note T = workspace_scan[of "serial_ops SerialLeg_init" "\<lambda>pts. []" 2
      "[145, - 45, - 145, 45]" "[0, 0, 0, 0]" 0 "{#}"]
  from T[THEN conjunct1, rule_format, OF serial_default_workspace]
  obtain sr where sr: "linspace 0 180 2 = Inr sr"
    and len: "length (List.product sr sr) = (nat 2)\<^sup>2"
    and z: "zip [145, - 45, - 145, 45] [0, 0, 0, 0]
              = concat (map (scan_keep (serial_ops SerialLeg_init)) (List.product sr sr))"
    by blast
  from sr have e: "sr = [0, 180]" by (simp add: linspace_2)
  have c: "\<exists>scan_range points. linspace 0 180 2 = Inr scan_range \<and>
       theta1_loop (fivebar_rear_ops FiveBarRearLeg_init) scan_range scan_range [] = Inr points"
    using workspace_scan[where m = "fivebar_rear_ops FiveBarRearLeg_init" and resolution = 2
        and r = FiveBarRearLeg_init, THEN conjunct2]
    by simp
  from serial_default_workspace len[unfolded e] z[unfolded e] c show ?thesis by blast
qed

section \<open>Alpha-shape boundary\<close>

lemma edge_loop_mem:
  "e \<in> edge_loop es B \<longleftrightarrow> (e \<in> B) \<noteq> odd (count_list es e)"
  by (induction es arbitrary: B) auto

lemma edge_loop_append: "edge_loop (xs @ ys) B = edge_loop ys (edge_loop xs B)"
  by (induction xs arbitrary: B) auto

lemma simplex_loop_step:
  assumes "alpha \<noteq> 0" and "i0 < length points" "i1 < length points" "i2 < length points"
  shows "simplex_loop points alpha ((i0, i1, i2) # rest) (A, B) =
     (if retained points alpha (i0, i1, i2)
      then simplex_loop points alpha rest
             (A + tri_area_of points (i0, i1, i2), edge_loop (simplex_edges (i0, i1, i2)) B)
      else simplex_loop points alpha rest (A, B))"
  using assms
  by (simp add: retained_def tri_area_of_def circum_r_of_def Let_def not_less)

lemma simplex_loop_result:
  assumes "alpha \<noteq> 0" and "valid_simplices points sxs"
  shows "simplex_loop points alpha sxs (A, B) =
     Inr (A + sum_list (map (tri_area_of points) (filter (retained points alpha) sxs)),
          edge_loop (concat (map simplex_edges (filter (retained points alpha) sxs))) B)"
  using assms(2)
proof (induction sxs arbitrary: A B)
  case Nil
  show ?case by simp
next
  case (Cons sx sxs)
  obtain i0 i1 i2 where sx: "sx = (i0, i1, i2)" by (cases sx)
  from Cons.prems sx have v: "i0 < length points" "i1 < length points" "i2 < length points"
    and vs: "valid_simplices points sxs"
    by (simp_all add: valid_simplices_def)
  show ?case
    unfolding sx simplex_loop_step[OF assms(1) v]
    by (simp add: Cons.IH[OF vs] edge_loop_append add.assoc del: simplex_loop.simps)
qed

lemma count_list_concat:
  "count_list (concat (map f xs)) e = sum_list (map (\<lambda>x. count_list (f x) e) xs)"
  by (induction xs) auto

lemma tri_area_zero_if_repeated:
  assumes "i0 = i1 \<or> i1 = i2 \<or> i2 = i0"
  shows "tri_area_of points (i0, i1, i2) = 0"
proof -
  have z: "pnorm (psub p p) = 0" for p by (simp add: pnorm_def psub_def)
  from assms consider "i0 = i1" | "i1 = i2" | "i2 = i0" by blast
  thus ?thesis
  proof cases
    case 1
    thus ?thesis
      by (simp add: tri_area_of_def Let_def z pnorm_psub_commute[of "points ! i2" "points ! i1"])
  next
    case 2
    thus ?thesis
      by (simp add: tri_area_of_def Let_def z pnorm_psub_commute[of "points ! i2" "points ! i0"])
  next
    case 3
    thus ?thesis
      by (simp add: tri_area_of_def Let_def z pnorm_psub_commute[of "points ! i1" "points ! i0"])
  qed
qed

lemma retained_distinct_edges:
  assumes "retained points alpha sx"
  shows "distinct (simplex_edges sx)"
proof -
  obtain i0 i1 i2 where sx: "sx = (i0, i1, i2)" by (cases sx)
  from assms have "tri_area_of points (i0, i1, i2) > 0" by (simp add: retained_def sx)
  with tri_area_zero_if_repeated[of i0 i1 i2 points] have "i0 \<noteq> i1" "i1 \<noteq> i2" "i2 \<noteq> i0"
    by auto
  thus ?thesis by (auto simp: sx simplex_edges_def min_def max_def)
qed

lemma count_list_distinct:
  "distinct xs \<Longrightarrow> count_list xs e = (if e \<in> set xs then 1 else 0)"
  by (induction xs) auto

lemma count_retained_edges:
  "count_list (concat (map simplex_edges (filter (retained points alpha) sxs))) e
     = triangles_with_edge e (filter (retained points alpha) sxs)"
proof (induction sxs)
  case Nil
  show ?case by (simp add: triangles_with_edge_def)
next
  case (Cons sx sxs)
  show ?case
  proof (cases "retained points alpha sx")
    case True
    from retained_distinct_edges[OF True]
    have "count_list (simplex_edges sx) e = (if e \<in> set (simplex_edges sx) then 1 else 0)"
      by (rule count_list_distinct)
    with Cons True show ?thesis by (simp add: triangles_with_edge_def)
  next
    case False
    with Cons show ?thesis by simp
  qed
qed

lemma boundary_edges_result:
  "edge_loop (concat (map simplex_edges (filter (retained points alpha) sxs))) {}
     = {e. odd (triangles_with_edge e (filter (retained points alpha) sxs))}"
  by (auto simp: edge_loop_mem count_retained_edges)

text \<open>
  C5. For every point cloud with at least 4 points (and a triangulation whose indices are
  inside the cloud, a non-zero threshold), \<open>calculate_concave_hull\<close> retains a triangle if
  and only if its Heron area is at least \<open>1e-5\<close> and its circumradius is strictly below
  \<open>1 / alpha_threshold\<close>; the returned area is the sum of the retained triangles' areas; and
  an edge, as a sorted vertex-index pair, is in the returned boundary if and only if it occurs
  in an odd number of retained triangles, which is exactly one whenever no edge occurs in more
  than two of them.
\<close>

theorem concave_hull_alpha_shape:
  assumes "4 \<le> length points" and "alpha_threshold \<noteq> 0" and "valid_simplices points simplices"
  shows "calculate_concave_hull points alpha_threshold simplices =
           Inr (sum_list (map (tri_area_of points) (filter (retained points alpha_threshold) simplices)),
                image_mset (\<lambda>(i, j). (points ! i, points ! j))
                  (mset_set {e. odd (triangles_with_edge e
                                      (filter (retained points alpha_threshold) simplices))})) \<and>
         ((\<forall>e. triangles_with_edge e (filter (retained points alpha_threshold) simplices) \<le> 2) \<longrightarrow>
            {e. odd (triangles_with_edge e (filter (retained points alpha_threshold) simplices))}
              = {e. triangles_with_edge e (filter (retained points alpha_threshold) simplices) = 1})"
proof
  show "calculate_concave_hull points alpha_threshold simplices =
           Inr (sum_list (map (tri_area_of points) (filter (retained points alpha_threshold) simplices)),
                image_mset (\<lambda>(i, j). (points ! i, points ! j))
                  (mset_set {e. odd (triangles_with_edge e
                                      (filter (retained points alpha_threshold) simplices))}))"
    using assms(1)
    by (simp add: calculate_concave_hull_def simplex_loop_result[OF assms(2,3)] ebind_def
        boundary_edges_result)
next
  show "(\<forall>e. triangles_with_edge e (filter (retained points alpha_threshold) simplices) \<le> 2) \<longrightarrow>
            {e. odd (triangles_with_edge e (filter (retained points alpha_threshold) simplices))}
              = {e. triangles_with_edge e (filter (retained points alpha_threshold) simplices) = 1}"
  proof
    assume le: "\<forall>e. triangles_with_edge e (filter (retained points alpha_threshold) simplices) \<le> 2"
    have "odd n \<longleftrightarrow> n = 1" if "n \<le> 2" for n :: nat
    proof -
      from that consider "n = 0" | "n = 1" | "n = 2" by linarith
      thus ?thesis by cases simp_all
    qed
    with le show "{e. odd (triangles_with_edge e (filter (retained points alpha_threshold) simplices))}
              = {e. triangles_with_edge e (filter (retained points alpha_threshold) simplices) = 1}"
      by auto
  qed
qed

lemma sqrt_25: "sqrt 25 = 5" by (rule real_sqrt_unique) simp_all
lemma sqrt_36: "sqrt 36 = 6" by (rule real_sqrt_unique) simp_all

lemma rectangle_hull:
  "calculate_concave_hull [(0, 0), (3, 0), (0, 4), (3, 4)] (4 / 100) [(0, 1, 2), (1, 3, 2)]
     = Inr (12, {# ((0, 0), (3, 0)), ((0, 0), (0, 4)), ((3, 0), (3, 4)), ((0, 4), (3, 4)) #})"
proof -
  have n: "pnorm (psub (0, 0) (3, 0)) = 3" "pnorm (psub (3, 0) (0, 4)) = 5"
    "pnorm (psub (0, 4) (0, 0)) = 4" "pnorm (psub (3, 0) (3, 4)) = 4"
    "pnorm (psub (3, 4) (0, 4)) = 3" "pnorm (psub (0, 4) (3, 0)) = 5"
    by (simp_all add: pnorm_def psub_def sqrt_25)
  have l: "simplex_loop [(0, 0), (3, 0), (0, 4), (3, 4)] (4 / 100) [(0, 1, 2), (1, 3, 2)] (0, {})
         = Inr (12, {(0, 1), (0, 2), (1, 3), (2, 3)})"
    by (simp add: n Let_def sqrt_36 simplex_edges_def) auto
  have m: "mset_set {(0, 1), (0, 2), (1, 3), (2 :: nat, 3 :: nat)}
         = {# (0, 1), (0, 2), (1, 3), (2, 3) #}"
    by simp
  show ?thesis
    unfolding calculate_concave_hull_def l ebind_def sum.case prod.case m by simp
qed

text \<open>
  A \<open>3 x 4\<close> rectangle cut into two right triangles: both are retained, the area is \<open>12\<close>,
  and the shared diagonal cancels out of the boundary.
\<close>

theorem concave_hull_alpha_shape_witness:
  "4 \<le> length [(0, 0), (3, 0), (0, 4), (3 :: real, 4 :: real)] \<and> (4 / 100 :: real) \<noteq> 0 \<and>
   valid_simplices [(0, 0), (3, 0), (0, 4), (3, 4)] [(0, 1, 2), (1, 3, 2)] \<and>
   calculate_concave_hull [(0, 0), (3, 0), (0, 4), (3, 4)] (4 / 100) [(0, 1, 2), (1, 3, 2)]
     = Inr (12, {# ((0, 0), (3, 0)), ((0, 0), (0, 4)), ((3, 0), (3, 4)), ((0, 4), (3, 4)) #}) \<and>
   sum_list (map (tri_area_of [(0, 0), (3, 0), (0, 4), (3, 4)])
      (filter (retained [(0, 0), (3, 0), (0, 4), (3, 4)] (4 / 100)) [(0, 1, 2), (1, 3, 2)])) = 12"
proof -
  have h1: "4 \<le> length [(0, 0), (3, 0), (0, 4), (3 :: real, 4 :: real)]" by simp
  have h2: "(4 / 100 :: real) \<noteq> 0" by simp
  have h3: "valid_simplices [(0, 0), (3, 0), (0, 4), (3, 4)] [(0, 1, 2), (1, 3, 2)]"
    by (simp add: valid_simplices_def)
  from concave_hull_alpha_shape[OF h1 h2 h3, THEN conjunct1] rectangle_hull
  have "sum_list (map (tri_area_of [(0, 0), (3, 0), (0, 4), (3, 4)])
      (filter (retained [(0, 0), (3, 0), (0, 4), (3, 4)] (4 / 100)) [(0, 1, 2), (1, 3, 2)])) = 12"
    by simp
  with h1 h2 h3 rectangle_hull show ?thesis by blast
qed

section \<open>Largest centred ellipse\<close>

lemma profile_radius_at_nonneg: "0 \<le> profile_radius_at hull_lines y"
  by (simp add: profile_radius_at_def split: prod.splits)

lemma arange_unit_nth:
  "j < length (arange a b 1) \<Longrightarrow> arange a b 1 ! j = a + real j"
  by (simp add: arange_def)

lemma arange_down_pos:
  assumes "x \<in> set (arange w 0 (- 2))"
  shows "0 < x \<and> x \<le> w"
proof -
  from assms obtain i where i: "i < nat \<lceil>(0 - w) / (- 2)\<rceil>" and x: "x = w + real i * (- 2)"
    by (auto simp: arange_def)
  from i have "int i < \<lceil>w / 2\<rceil>" by simp
  hence "real i < w / 2" by (simp add: less_ceiling_iff)
  with x show ?thesis by simp
qed

lemma collision_loop_iff:
  "collision_loop scan_ys profile center_y w half_h js \<longleftrightarrow>
     (\<exists>j\<in>set js. (w / 2) * sqrt (max 0 (1 - (\<bar>scan_ys ! j - center_y\<bar> / half_h)\<^sup>2)) > profile ! j)"
proof (induction js)
  case Nil
  show ?case by simp
next
  case (Cons j js)
  have m: "(if t < 0 then 0 else t) = max 0 t" for t :: real by (simp add: max_def)
  show ?case by (simp add: Cons.IH Let_def m)
qed

lemma center_loop_no_center:
  assumes "\<forall>i\<in>set is. profile ! i < 1"
  shows "center_loop scan_ys profile aspect min_y res is st = st"
  using assms
proof (induction "is" arbitrary: st)
  case Nil
  show ?case by simp
next
  case (Cons i "is")
  obtain bw "by" where st: "st = (bw, by)" by (cases st)
  from Cons show ?case by (simp add: st)
qed

lemma py_int_covers:
  fixes lo hi :: real and j :: nat
  assumes lo: "lo \<le> real j" and hi: "real j \<le> hi" and start: "0 \<le> py_int lo"
  shows "j \<in> set [nat (py_int lo)..<nat (py_int hi + 1)]"
proof -
  have a: "py_int lo \<le> int j"
  proof (cases "0 \<le> lo")
    case True
    hence "py_int lo = \<lfloor>lo\<rfloor>" by (simp add: py_int_def)
    moreover have "\<lfloor>lo\<rfloor> \<le> int j" using lo by (simp add: floor_le_iff)
    ultimately show ?thesis by simp
  next
    case False
    hence "py_int lo = \<lceil>lo\<rceil>" by (simp add: py_int_def)
    moreover have "\<lceil>lo\<rceil> \<le> 0" using False by (simp add: ceiling_le_iff)
    moreover have "(0::int) \<le> int j" by simp
    ultimately show ?thesis by (simp only: order_trans)
  qed
  have "0 \<le> hi" using hi by (rule order_trans[rotated]) simp
  hence "py_int hi = \<lfloor>hi\<rfloor>" by (simp add: py_int_def)
  moreover have "int j \<le> \<lfloor>hi\<rfloor>" using hi by (simp add: le_floor_iff)
  ultimately have b: "int j \<le> py_int hi" by simp
  from a b start show ?thesis by auto
qed

lemma accepted_clear:
  assumes acc: "accepted scan_ys profile aspect min_y 1 cy w"
    and rows: "\<forall>j<length scan_ys. scan_ys ! j = min_y + real j"
  shows "ellipse_clear scan_ys profile (cy, w, w * aspect)"
  unfolding ellipse_clear_def prod.case
proof (intro allI impI)
  fix j assume j: "j < length scan_ys" and cov: "\<bar>scan_ys ! j - cy\<bar> \<le> w * aspect / 2"
  define half_h where "half_h = w * aspect / 2"
  define lo where "lo = (cy - half_h - min_y) / 1"
  define hi where "hi = (cy + half_h - min_y) / 1"
  from acc have s0: "0 \<le> py_int lo"
    and nc: "\<not> collision_loop scan_ys profile cy w half_h [nat (py_int lo)..<nat (py_int hi + 1)]"
    by (simp_all add: accepted_def Let_def lo_def hi_def half_h_def)
  from rows j have r: "scan_ys ! j = min_y + real j" by simp
  from cov r have c: "\<bar>min_y + real j - cy\<bar> \<le> half_h" by (simp add: half_h_def)
  have "lo \<le> real j" "real j \<le> hi"
    using c unfolding lo_def hi_def div_by_1 by linarith+
  from py_int_covers[OF this s0] nc
  have "\<not> (w / 2) * sqrt (max 0 (1 - (\<bar>scan_ys ! j - cy\<bar> / half_h)\<^sup>2)) > profile ! j"
    unfolding collision_loop_iff by blast
  thus "required_half_width w (w * aspect) \<bar>scan_ys ! j - cy\<bar> \<le> profile ! j"
    by (simp add: required_half_width_def half_h_def not_less)
qed

lemma zero_width_clear:
  assumes "\<forall>j<length rows. 0 \<le> profile ! j"
  shows "ellipse_clear rows profile (cy, 0, h)"
  using assms by (simp add: ellipse_clear_def required_half_width_def)

lemma ellipse_unfold:
  assumes "hull_lines \<noteq> []"
  shows "calculate_max_centered_ellipse hull_lines aspect =
     (case center_loop (scan_rows hull_lines) (profile_rows hull_lines) aspect
             (Min (set (hull_ys hull_lines))) 1 [0..<length (scan_rows hull_lines)] (0, 0) of
        (best_width, best_y) \<Rightarrow> (best_y, best_width, best_width * aspect))"
proof -
  obtain l ls where "hull_lines = l # ls" using assms by (cases hull_lines) auto
  hence ne: "concat (map (\<lambda>line. [snd (fst line), snd (snd line)]) hull_lines) \<noteq> []" by simp
  show ?thesis
    unfolding calculate_max_centered_ellipse_def Let_def scan_rows_def profile_rows_def hull_ys_def
    using assms ne by simp
qed

lemma accepted_iff_fits:
  "accepted rows profile aspect min_y 1 cy w \<longleftrightarrow> candidate_fits rows profile aspect min_y cy w"
  unfolding accepted_def candidate_fits_def Let_def collision_loop_iff required_half_width_def
  by (auto simp: not_less)

lemma arange_down_sorted: "sorted_wrt (>) (arange w 0 (- 2))"
  unfolding arange_def by (simp add: sorted_wrt_map sorted_wrt_upt[unfolded less_eq] sorted_wrt_iff_nth_less)

lemma width_loop_max:
  assumes "sorted_wrt (>) ws"
  shows "(width_loop scan_ys profile aspect min_y res cy bw ws = 0 \<or>
          (width_loop scan_ys profile aspect min_y res cy bw ws \<in> set ws \<and>
           bw < width_loop scan_ys profile aspect min_y res cy bw ws \<and>
           accepted scan_ys profile aspect min_y res cy
             (width_loop scan_ys profile aspect min_y res cy bw ws))) \<and>
         (\<forall>w\<in>set ws. accepted scan_ys profile aspect min_y res cy w \<longrightarrow>
             w \<le> max bw (width_loop scan_ys profile aspect min_y res cy bw ws))"
  using assms
proof (induction ws)
  case Nil
  show ?case by simp
next
  case (Cons w ws)
  from Cons.prems have below: "\<forall>x\<in>set ws. x < w" and srt: "sorted_wrt (>) ws" by auto
  show ?case
  proof (cases "w \<le> bw")
    case True
    hence v: "width_loop scan_ys profile aspect min_y res cy bw (w # ws) = 0" by simp
    from True below have "\<forall>x\<in>set (w # ws). x \<le> max bw 0" by (auto simp: max_def)
    with v show ?thesis by simp
  next
    case False
    show ?thesis
    proof (cases "accepted scan_ys profile aspect min_y res cy w")
      case True
      with False have v: "width_loop scan_ys profile aspect min_y res cy bw (w # ws) = w"
        by (auto simp: accepted_def Let_def)
      from below have "\<forall>x\<in>set (w # ws). x \<le> max bw w" by (auto simp: max_def)
      with v True False show ?thesis by simp
    next
      case nacc: False
      with False have v: "width_loop scan_ys profile aspect min_y res cy bw (w # ws)
                         = width_loop scan_ys profile aspect min_y res cy bw ws"
        by (auto simp: accepted_def Let_def)
      from Cons.IH[OF srt] nacc show ?thesis unfolding v by auto
    qed
  qed
qed

lemma center_loop_search:
  assumes "search_state_ok rows profile aspect min_y D st"
    and "sorted_wrt (<) is" and "\<forall>i\<in>set is. i < length rows" and "\<forall>i\<in>set is. \<forall>d\<in>D. d < i"
  shows "search_state_ok rows profile aspect min_y (D \<union> set is)
           (center_loop rows profile aspect min_y 1 is st)"
  using assms
proof (induction "is" arbitrary: D st)
  case Nil
  thus ?case by simp
next
  case (Cons i "is")
  obtain bw "by" where st: "st = (bw, by)" by (cases st)
  from Cons.prems have i: "i < length rows" and above: "\<forall>d\<in>D. d < i"
    and srt: "sorted_wrt (<) is" and lt: "\<forall>k\<in>set is. i < k"
    and rest: "\<forall>k\<in>set is. k < length rows" and restD: "\<forall>k\<in>set is. \<forall>d\<in>D. d < k"
    by auto
  from Cons.prems(1) have inv:
    "0 \<le> bw" "bw = 0 \<longrightarrow> by = 0"
    "\<forall>d\<in>D. \<forall>w. search_candidate rows profile aspect min_y d w \<longrightarrow> w \<le> bw"
    "0 < bw \<longrightarrow> (\<exists>d\<in>D. search_candidate rows profile aspect min_y d bw \<and> by = rows ! d \<and>
                  (\<forall>d'\<in>D. d' < d \<longrightarrow>
                     (\<forall>w. search_candidate rows profile aspect min_y d' w \<longrightarrow> w < bw)))"
    by (simp_all add: search_state_ok_def st)
  have next_above: "\<forall>k\<in>set is. \<forall>d\<in>insert i D. d < k" using lt restD by auto
  have keep_first: "0 < bw \<longrightarrow> (\<exists>d\<in>insert i D. search_candidate rows profile aspect min_y d bw \<and>
                  by = rows ! d \<and>
                  (\<forall>d'\<in>insert i D. d' < d \<longrightarrow>
                     (\<forall>w. search_candidate rows profile aspect min_y d' w \<longrightarrow> w < bw)))"
  proof
    assume "0 < bw"
    with inv(4) obtain d where d: "d \<in> D" "search_candidate rows profile aspect min_y d bw"
      "by = rows ! d"
      "\<forall>d'\<in>D. d' < d \<longrightarrow> (\<forall>w. search_candidate rows profile aspect min_y d' w \<longrightarrow> w < bw)"
      by blast
    from above d(1) have "d < i" by simp
    hence "\<forall>d'\<in>insert i D. d' < d \<longrightarrow>
             (\<forall>w. search_candidate rows profile aspect min_y d' w \<longrightarrow> w < bw)"
      using d(4) by auto
    with d show "\<exists>d\<in>insert i D. search_candidate rows profile aspect min_y d bw \<and>
                  by = rows ! d \<and>
                  (\<forall>d'\<in>insert i D. d' < d \<longrightarrow>
                     (\<forall>w. search_candidate rows profile aspect min_y d' w \<longrightarrow> w < bw))"
      by blast
  qed
  have un: "insert i D \<union> set is = D \<union> set (i # is)" by auto
  show ?case
  proof (cases "profile ! i < 1")
    case True
    hence none: "\<forall>w. \<not> search_candidate rows profile aspect min_y i w"
      by (simp add: search_candidate_def)
    have "search_state_ok rows profile aspect min_y (insert i D) (bw, by)"
      unfolding search_state_ok_def prod.case using inv(1,2,3) none keep_first by simp
    from Cons.IH[OF this srt rest next_above] True show ?thesis
      unfolding un by (simp add: st)
  next
    case False
    define v where "v = width_loop rows profile aspect min_y 1 (rows ! i) bw
                      (arange (profile ! i * 2) 0 (- 2))"
    note W = width_loop_max[OF arange_down_sorted, of rows profile aspect min_y 1 "rows ! i" bw
        "profile ! i * 2", folded v_def]
    have cand_le: "\<forall>w. search_candidate rows profile aspect min_y i w \<longrightarrow> w \<le> max bw v"
      using W by (auto simp: search_candidate_def accepted_iff_fits)
    show ?thesis
    proof (cases "v > bw")
      case True
      with W inv(1) have mem: "v \<in> set (arange (profile ! i * 2) 0 (- 2))"
        and acc: "accepted rows profile aspect min_y 1 (rows ! i) v"
        by auto
      from acc mem i False have c: "search_candidate rows profile aspect min_y i v"
        by (simp add: search_candidate_def accepted_iff_fits)
      have p1: "\<forall>d\<in>insert i D. \<forall>w. search_candidate rows profile aspect min_y d w \<longrightarrow> w \<le> v"
        using inv(3) cand_le True by (auto simp: max_def) fastforce
      have p2: "\<forall>d'\<in>insert i D. d' < i \<longrightarrow>
                 (\<forall>w. search_candidate rows profile aspect min_y d' w \<longrightarrow> w < v)"
        using inv(3) True by fastforce
      have "search_state_ok rows profile aspect min_y (insert i D) (v, rows ! i)"
        unfolding search_state_ok_def prod.case
        using inv(1) True c p1 p2 by auto
      from Cons.IH[OF this srt rest next_above] True False show ?thesis
        unfolding un by (simp add: st Let_def v_def)
    next
      case nb: False
      hence "max bw v = bw" by (simp add: max_def)
      with cand_le have "\<forall>w. search_candidate rows profile aspect min_y i w \<longrightarrow> w \<le> bw" by simp
      hence "search_state_ok rows profile aspect min_y (insert i D) (bw, by)"
        unfolding search_state_ok_def prod.case using inv(1,2,3) keep_first by simp
      from Cons.IH[OF this srt rest next_above] nb False show ?thesis
        unfolding un by (simp add: st Let_def v_def)
    qed
  qed
qed

lemma candidate_pos:
  assumes "search_candidate rows profile aspect min_y i w"
  shows "0 < w \<and> w \<le> 2 * profile ! i"
  using assms arange_down_pos[of w "profile ! i * 2"] by (simp add: search_candidate_def)

lemma ellipse_search:
  assumes ne: "hull_lines \<noteq> []"
  shows "\<exists>cy w.
     calculate_max_centered_ellipse hull_lines (1 / 2) = (cy, w, w * (1 / 2)) \<and>
     search_state_ok (scan_rows hull_lines) (profile_rows hull_lines) (1 / 2)
       (Min (set (hull_ys hull_lines))) {0..<length (scan_rows hull_lines)} (w, cy)"
proof -
  define rows where "rows = scan_rows hull_lines"
  define prof where "prof = profile_rows hull_lines"
  define min_y where "min_y = Min (set (hull_ys hull_lines))"
  define st where "st = center_loop rows prof (1 / 2) min_y 1 [0..<length rows] (0, 0)"
  obtain bw "by" where bwby: "st = (bw, by)" by (cases st)
  have res: "calculate_max_centered_ellipse hull_lines (1 / 2) = (by, bw, bw * (1 / 2))"
    unfolding ellipse_unfold[OF ne] using bwby
    by (simp add: st_def rows_def prof_def min_y_def)
  have init: "search_state_ok rows prof (1 / 2) min_y {} (0, 0)"
    by (simp add: search_state_ok_def)
  have "search_state_ok rows prof (1 / 2) min_y ({} \<union> set [0..<length rows]) st"
    unfolding st_def by (rule center_loop_search[OF init]) simp_all
  hence "search_state_ok rows prof (1 / 2) min_y {0..<length rows} (bw, by)"
    by (simp add: bwby)
  with res show ?thesis unfolding rows_def prof_def min_y_def by blast
qed

text \<open>
  C7. \<open>calculate_max_centered_ellipse\<close> returns \<open>(0, 0, 0)\<close> when the boundary is empty
  or no candidate exists (in particular when no row has profile radius at least \<open>1\<close>);
  otherwise it returns \<open>(best_center_y, best_width, best_width * 0.5)\<close>, where
  \<open>best_width\<close> is the largest width of any candidate of the search, and
  \<open>best_center_y\<close> is the height of the first centre row that has a candidate of that width.
  The returned ellipse satisfies the non-collision invariant: on every sampled row within its
  vertical extent, the required half-width
  \<open>(w / 2) * sqrt (max 0 (1 - (dy / (h / 2))^2))\<close> does not exceed the row's profile radius.
\<close>

theorem max_centered_ellipse_result:
  "calculate_max_centered_ellipse [] (1 / 2) = (0, 0, 0) \<and>
   (hull_lines \<noteq> [] \<longrightarrow>
      (\<exists>best_center_y best_width.
         calculate_max_centered_ellipse hull_lines (1 / 2)
           = (best_center_y, best_width, best_width * (1 / 2)) \<and>
         0 \<le> best_width \<and>
         (best_width = 0 \<longrightarrow> best_center_y = 0) \<and>
         (\<forall>i w. ellipse_candidate hull_lines i w \<longrightarrow> w \<le> best_width) \<and>
         (best_width = 0 \<longleftrightarrow> (\<forall>i w. \<not> ellipse_candidate hull_lines i w)) \<and>
         (0 < best_width \<longrightarrow>
            (\<exists>i<length (scan_rows hull_lines).
               best_center_y = scan_rows hull_lines ! i \<and>
               1 \<le> profile_rows hull_lines ! i \<and>
               best_width \<le> 2 * profile_rows hull_lines ! i \<and>
               ellipse_candidate hull_lines i best_width \<and>
               (\<forall>i'<i. \<forall>w. ellipse_candidate hull_lines i' w \<longrightarrow> w < best_width))) \<and>
         ellipse_clear (scan_rows hull_lines) (profile_rows hull_lines)
           (best_center_y, best_width, best_width * (1 / 2)))) \<and>
   (hull_lines \<noteq> [] \<and> (\<forall>i<length (scan_rows hull_lines). profile_rows hull_lines ! i < 1) \<longrightarrow>
      calculate_max_centered_ellipse hull_lines (1 / 2) = (0, 0, 0))"
proof (intro conjI impI)
  show "calculate_max_centered_ellipse [] (1 / 2) = (0, 0, 0)"
    by (simp add: calculate_max_centered_ellipse_def)
next
  assume ne: "hull_lines \<noteq> []"
  define rows where "rows = scan_rows hull_lines"
  define prof where "prof = profile_rows hull_lines"
  define min_y where "min_y = Min (set (hull_ys hull_lines))"
  from ellipse_search[OF ne] obtain cy bw where
    res: "calculate_max_centered_ellipse hull_lines (1 / 2) = (cy, bw, bw * (1 / 2))"
    and ok: "search_state_ok rows prof (1 / 2) min_y {0..<length rows} (bw, cy)"
    unfolding rows_def prof_def min_y_def by blast
  have cand: "ellipse_candidate hull_lines i w \<longleftrightarrow> search_candidate rows prof (1 / 2) min_y i w"
    for i w by (simp add: ellipse_candidate_def rows_def prof_def min_y_def)
  from ok have nonneg: "0 \<le> bw" and zero: "bw = 0 \<longrightarrow> cy = 0"
    and mx0: "\<forall>i\<in>{0..<length rows}. \<forall>w. search_candidate rows prof (1 / 2) min_y i w \<longrightarrow> w \<le> bw"
    and att0: "0 < bw \<longrightarrow>
           (\<exists>i\<in>{0..<length rows}. search_candidate rows prof (1 / 2) min_y i bw \<and> cy = rows ! i \<and>
                  (\<forall>i'\<in>{0..<length rows}. i' < i \<longrightarrow>
                     (\<forall>w. search_candidate rows prof (1 / 2) min_y i' w \<longrightarrow> w < bw)))"
    by (simp_all add: search_state_ok_def)
  have inrange: "search_candidate rows prof (1 / 2) min_y i w \<Longrightarrow> i \<in> {0..<length rows}" for i w
    by (simp add: search_candidate_def)
  have mx: "\<forall>i w. ellipse_candidate hull_lines i w \<longrightarrow> w \<le> bw"
    using mx0 inrange unfolding cand by blast
  have none_iff: "bw = 0 \<longleftrightarrow> (\<forall>i w. \<not> ellipse_candidate hull_lines i w)"
  proof
    assume z: "bw = 0"
    show "\<forall>i w. \<not> ellipse_candidate hull_lines i w"
    proof (intro allI notI)
      fix i w assume c: "ellipse_candidate hull_lines i w"
      with mx z have "w \<le> 0" by auto
      moreover from c candidate_pos[of rows prof "1 / 2" min_y i w] have "0 < w" by (simp add: cand)
      ultimately show False by simp
    qed
  next
    assume n: "\<forall>i w. \<not> ellipse_candidate hull_lines i w"
    show "bw = 0"
    proof (rule ccontr)
      assume "bw \<noteq> 0"
      with nonneg have "0 < bw" by simp
      with att0 obtain i where "search_candidate rows prof (1 / 2) min_y i bw" by blast
      with n show False by (simp add: cand)
    qed
  qed
  have att: "0 < bw \<longrightarrow>
            (\<exists>i<length rows. cy = rows ! i \<and> 1 \<le> prof ! i \<and> bw \<le> 2 * prof ! i \<and>
               ellipse_candidate hull_lines i bw \<and>
               (\<forall>i'<i. \<forall>w. ellipse_candidate hull_lines i' w \<longrightarrow> w < bw))"
  proof
    assume "0 < bw"
    with att0 obtain i where i: "i < length rows"
      and c: "search_candidate rows prof (1 / 2) min_y i bw" and cyi: "cy = rows ! i"
      and first: "\<forall>i'\<in>{0..<length rows}. i' < i \<longrightarrow>
                     (\<forall>w. search_candidate rows prof (1 / 2) min_y i' w \<longrightarrow> w < bw)"
      by auto
    from c have p: "1 \<le> prof ! i" by (simp add: search_candidate_def)
    from candidate_pos[OF c] have le: "bw \<le> 2 * prof ! i" by simp
    have f: "\<forall>i'<i. \<forall>w. ellipse_candidate hull_lines i' w \<longrightarrow> w < bw"
      using first i unfolding cand by auto
    from i cyi p le c f show "\<exists>i<length rows. cy = rows ! i \<and> 1 \<le> prof ! i \<and> bw \<le> 2 * prof ! i \<and>
               ellipse_candidate hull_lines i bw \<and>
               (\<forall>i'<i. \<forall>w. ellipse_candidate hull_lines i' w \<longrightarrow> w < bw)"
      unfolding cand by blast
  qed
  have rows_nth: "\<forall>j<length rows. rows ! j = min_y + real j"
    unfolding rows_def scan_rows_def min_y_def by (simp add: arange_unit_nth)
  have prof_nonneg: "\<forall>j<length rows. 0 \<le> prof ! j"
    by (simp add: prof_def rows_def profile_rows_def profile_radius_at_nonneg)
  have clear: "ellipse_clear rows prof (cy, bw, bw * (1 / 2))"
  proof (cases "bw = 0")
    case True
    with zero_width_clear[OF prof_nonneg, of cy 0] show ?thesis by simp
  next
    case False
    with nonneg att0 obtain i where "cy = rows ! i" "search_candidate rows prof (1 / 2) min_y i bw"
      by auto
    hence "accepted rows prof (1 / 2) min_y 1 cy bw"
      by (simp add: search_candidate_def accepted_iff_fits)
    from accepted_clear[OF this rows_nth] show ?thesis .
  qed
  from res nonneg zero mx none_iff att clear
  show "\<exists>best_center_y best_width.
         calculate_max_centered_ellipse hull_lines (1 / 2)
           = (best_center_y, best_width, best_width * (1 / 2)) \<and>
         0 \<le> best_width \<and>
         (best_width = 0 \<longrightarrow> best_center_y = 0) \<and>
         (\<forall>i w. ellipse_candidate hull_lines i w \<longrightarrow> w \<le> best_width) \<and>
         (best_width = 0 \<longleftrightarrow> (\<forall>i w. \<not> ellipse_candidate hull_lines i w)) \<and>
         (0 < best_width \<longrightarrow>
            (\<exists>i<length (scan_rows hull_lines).
               best_center_y = scan_rows hull_lines ! i \<and>
               1 \<le> profile_rows hull_lines ! i \<and>
               best_width \<le> 2 * profile_rows hull_lines ! i \<and>
               ellipse_candidate hull_lines i best_width \<and>
               (\<forall>i'<i. \<forall>w. ellipse_candidate hull_lines i' w \<longrightarrow> w < best_width))) \<and>
         ellipse_clear (scan_rows hull_lines) (profile_rows hull_lines)
           (best_center_y, best_width, best_width * (1 / 2))"
    unfolding rows_def[symmetric] prof_def[symmetric] by blast
next
  assume a: "hull_lines \<noteq> [] \<and> (\<forall>i<length (scan_rows hull_lines). profile_rows hull_lines ! i < 1)"
  hence "\<forall>i\<in>set [0..<length (scan_rows hull_lines)]. profile_rows hull_lines ! i < 1" by simp
  from center_loop_no_center[OF this] a
  show "calculate_max_centered_ellipse hull_lines (1 / 2) = (0, 0, 0)"
    by (simp add: ellipse_unfold)
qed

lemma walls_rows: "scan_rows [((- 2, 0), (- 2, 1)), ((2, 0), (2, 1))] = [0]"
  by (simp add: scan_rows_def hull_ys_def arange_def)

lemma walls_profile: "profile_rows [((- 2, 0), (- 2, 1)), ((2, 0), (2, 1))] = [2]"
  by (simp add: profile_rows_def walls_rows profile_radius_at_def get_scan_limits_at_y_def Let_def)

lemma arange_4: "arange 4 0 (- 2) = [4, 2]"
  by (simp add: arange_def upt_rec)

lemma walls_min: "Min (set (hull_ys [((- 2, 0), (- 2, 1)), ((2, 0), (2 :: real, 1 :: real))])) = 0"
  by (simp add: hull_ys_def)

lemma walls_ellipse:
  "calculate_max_centered_ellipse [((- 2, 0), (- 2, 1)), ((2, 0), (2, 1))] (1 / 2) = (0, 2, 1)"
proof -
  have ne: "[((- 2, 0), (- 2, 1)), ((2, 0), (2 :: real, 1 :: real))] \<noteq> []" by simp
  have w4: "width_loop [0] [2] (1 / 2) 0 1 0 0 [4, 2] = 2"
    by (simp add: py_int_def Let_def)
  show ?thesis
    unfolding ellipse_unfold[OF ne] walls_rows walls_profile walls_min
    by (simp add: arange_4 w4 Let_def del: width_loop.simps)
qed

lemma required_half_width_le:
  assumes "0 \<le> w"
  shows "required_half_width w h dy \<le> w / 2"
proof -
  have "max 0 (1 - (dy / (h / 2))\<^sup>2) \<le> 1" by simp
  hence "sqrt (max 0 (1 - (dy / (h / 2))\<^sup>2)) \<le> 1" by (simp only: real_sqrt_le_1_iff)
  hence "(w / 2) * sqrt (max 0 (1 - (dy / (h / 2))\<^sup>2)) \<le> (w / 2) * 1"
    using assms by (intro mult_left_mono) simp_all
  thus ?thesis by (simp add: required_half_width_def)
qed

lemma width_loop_break:
  "w \<le> bw \<Longrightarrow> width_loop scan_ys profile aspect min_y res cy bw (w # ws) = 0"
  by simp

lemma width_loop_hit:
  "\<not> w \<le> bw \<Longrightarrow> accepted scan_ys profile aspect min_y res cy w \<Longrightarrow>
     width_loop scan_ys profile aspect min_y res cy bw (w # ws) = w"
  by (auto simp: accepted_def Let_def)

lemma width_loop_skip:
  "\<not> w \<le> bw \<Longrightarrow> \<not> accepted scan_ys profile aspect min_y res cy w \<Longrightarrow>
     width_loop scan_ys profile aspect min_y res cy bw (w # ws)
       = width_loop scan_ys profile aspect min_y res cy bw ws"
  by (auto simp: accepted_def Let_def)

lemma tall_rows: "scan_rows [((- 3, 0), (- 3, 4)), ((3, 0), (3, 4))] = [0, 1, 2, 3]"
  by (simp add: scan_rows_def hull_ys_def arange_def upt_rec)

lemma tall_profile: "profile_rows [((- 3, 0), (- 3, 4)), ((3, 0), (3, 4))] = [3, 3, 3, 3]"
  by (simp add: profile_rows_def tall_rows profile_radius_at_def get_scan_limits_at_y_def Let_def)

lemma tall_min: "Min (set (hull_ys [((- 3, 0), (- 3, 4)), ((3, 0), (3 :: real, 4 :: real))])) = 0"
  by (simp add: hull_ys_def)

lemma arange_6: "arange 6 0 (- 2) = [6, 4, 2]"
  by (simp add: arange_def upt_rec)

lemma tall_nth: "j < 4 \<Longrightarrow> [3, 3, 3, 3 :: real] ! j = 3"
  by (simp add: nth_Cons' )

lemma ceiling_neg_half: "\<lceil>- (1 / 2) :: real\<rceil> = 0"
  by (rule ceiling_unique) simp_all

lemma tall_fits_1_6: "candidate_fits [0, 1, 2, 3] [3, 3, 3, 3] (1 / 2) 0 1 6"
proof -
  have s: "py_int (1 - 6 * (1 / 2) / 2 - 0) = 0" by (simp add: py_int_def ceiling_neg_half)
  have e: "py_int (1 + 6 * (1 / 2) / 2 - 0) = 2" by (simp add: py_int_def)
  have "required_half_width 6 (6 * (1 / 2)) \<bar>[0, 1, 2, 3] ! j - 1\<bar> \<le> [3, 3, 3, 3] ! j"
    if "j < 3" for j
    using required_half_width_le[of 6 "6 * (1 / 2)" "\<bar>[0, 1, 2, 3] ! j - 1\<bar>"] tall_nth[of j] that
    by simp
  thus ?thesis unfolding candidate_fits_def Let_def s e by simp
qed

lemma tall_fits_0_2: "candidate_fits [0, 1, 2, 3] [3, 3, 3, 3] (1 / 2) 0 0 2"
proof -
  have s: "py_int (0 - 2 * (1 / 2) / 2 - 0) = 0" by (simp add: py_int_def ceiling_neg_half)
  have e: "py_int (0 + 2 * (1 / 2) / 2 - 0) = 0" by (simp add: py_int_def)
  have "required_half_width 2 (2 * (1 / 2)) \<bar>[0, 1, 2, 3] ! j - 0\<bar> \<le> [3, 3, 3, 3] ! j"
    if "j < 1" for j
    using required_half_width_le[of 2 "2 * (1 / 2)" "\<bar>[0, 1, 2, 3] ! j - 0\<bar>"] tall_nth[of j] that
    by simp
  thus ?thesis unfolding candidate_fits_def Let_def s e by simp
qed

lemma tall_unfit_0_6: "\<not> candidate_fits [0, 1, 2, 3] [3, 3, 3, 3] (1 / 2) 0 0 6"
  by (simp add: candidate_fits_def py_int_def)

lemma tall_unfit_0_4: "\<not> candidate_fits [0, 1, 2, 3] [3, 3, 3, 3] (1 / 2) 0 0 4"
  by (simp add: candidate_fits_def py_int_def)

lemma tall_widths:
  "width_loop [0, 1, 2, 3] [3, 3, 3, 3] (1 / 2) 0 1 0 0 [6, 4, 2] = 2"
  "width_loop [0, 1, 2, 3] [3, 3, 3, 3] (1 / 2) 0 1 1 2 [6, 4, 2] = 6"
  "width_loop [0, 1, 2, 3] [3, 3, 3, 3] (1 / 2) 0 1 2 6 [6, 4, 2] = 0"
  "width_loop [0, 1, 2, 3] [3, 3, 3, 3] (1 / 2) 0 1 3 6 [6, 4, 2] = 0"
proof -
  show "width_loop [0, 1, 2, 3] [3, 3, 3, 3] (1 / 2) 0 1 0 0 [6, 4, 2] = 2"
    by (simp only: width_loop_skip[of 6 0, OF _ tall_unfit_0_6[folded accepted_iff_fits]]
        width_loop_skip[of 4 0, OF _ tall_unfit_0_4[folded accepted_iff_fits]]
        width_loop_hit[of 2 0, OF _ tall_fits_0_2[folded accepted_iff_fits]])
  show "width_loop [0, 1, 2, 3] [3, 3, 3, 3] (1 / 2) 0 1 1 2 [6, 4, 2] = 6"
    by (rule width_loop_hit[OF _ tall_fits_1_6[folded accepted_iff_fits]]) simp
  show "width_loop [0, 1, 2, 3] [3, 3, 3, 3] (1 / 2) 0 1 2 6 [6, 4, 2] = 0"
    by (rule width_loop_break) simp
  show "width_loop [0, 1, 2, 3] [3, 3, 3, 3] (1 / 2) 0 1 3 6 [6, 4, 2] = 0"
    by (rule width_loop_break) simp
qed

lemma tall_ellipse:
  "calculate_max_centered_ellipse [((- 3, 0), (- 3, 4)), ((3, 0), (3, 4))] (1 / 2) = (1, 6, 3)"
proof -
  have ne: "[((- 3, 0), (- 3, 4)), ((3, 0), (3 :: real, 4 :: real))] \<noteq> []" by simp
  have c: "center_loop [0, 1, 2, 3] [3, 3, 3, 3] (1 / 2) 0 1 [0, 1, 2, 3] (0, 0) = (6, 1)"
    by (simp add: arange_6 tall_widths Let_def del: width_loop.simps)
  have u: "[0..<length [0, 1, 2, 3 :: real]] = [0, 1, 2, 3]" by (simp add: upt_rec)
  show ?thesis
    unfolding ellipse_unfold[OF ne] tall_rows tall_profile tall_min u c by simp
qed

text \<open>
  Two vertical walls at \<open>x = -3\<close> and \<open>x = 3\<close> between the heights \<open>0\<close> and \<open>4\<close>: four
  sampled rows of profile radius \<open>3\<close>. The first centre accepts only the width \<open>2\<close>; the
  second centre accepts the width \<open>6\<close>, which replaces it; the later centres stop at once.
  The result is \<open>(1, 6, 3)\<close>. Two walls of height \<open>1\<close> at \<open>x = -2\<close> and \<open>x = 2\<close> give
  \<open>(0, 2, 1)\<close>, and a single wall on the axis leaves no candidate.
\<close>

theorem max_centered_ellipse_result_witness:
  "[((- 3, 0), (- 3, 4)), ((3, 0), (3 :: real, 4 :: real))] \<noteq> [] \<and>
   calculate_max_centered_ellipse [((- 3, 0), (- 3, 4)), ((3, 0), (3, 4))] (1 / 2) = (1, 6, 3) \<and>
   ellipse_candidate [((- 3, 0), (- 3, 4)), ((3, 0), (3, 4))] 0 2 \<and>
   \<not> ellipse_candidate [((- 3, 0), (- 3, 4)), ((3, 0), (3, 4))] 0 6 \<and>
   ellipse_candidate [((- 3, 0), (- 3, 4)), ((3, 0), (3, 4))] 1 6 \<and>
   ellipse_clear (scan_rows [((- 3, 0), (- 3, 4)), ((3, 0), (3, 4))])
     (profile_rows [((- 3, 0), (- 3, 4)), ((3, 0), (3, 4))]) (1, 6, 3) \<and>
   calculate_max_centered_ellipse [((- 2, 0), (- 2, 1)), ((2, 0), (2, 1))] (1 / 2) = (0, 2, 1) \<and>
   calculate_max_centered_ellipse [((0, 0), (0, 1))] (1 / 2) = (0, 0, 0)"
proof -
  let ?h = "[((- 3, 0), (- 3, 4)), ((3, 0), (3 :: real, 4 :: real))]"
  have ne: "?h \<noteq> []" by simp
  from max_centered_ellipse_result[of ?h, THEN conjunct2, THEN conjunct1, rule_format, OF ne]
  obtain cy w where r: "calculate_max_centered_ellipse ?h (1 / 2) = (cy, w, w * (1 / 2))"
    and mx: "\<forall>i v. ellipse_candidate ?h i v \<longrightarrow> v \<le> w"
    and c: "ellipse_clear (scan_rows ?h) (profile_rows ?h) (cy, w, w * (1 / 2))"
    by blast
  from r tall_ellipse have cw: "cy = 1" "w = 6" by simp_all
  with c have c': "ellipse_clear (scan_rows ?h) (profile_rows ?h) (1, 6, 3)" by simp
  have c02: "ellipse_candidate ?h 0 2"
    by (simp add: ellipse_candidate_def search_candidate_def tall_rows tall_profile tall_min
        arange_6 tall_fits_0_2)
  have c06: "\<not> ellipse_candidate ?h 0 6"
    by (simp add: ellipse_candidate_def search_candidate_def tall_rows tall_profile tall_min
        arange_6 tall_unfit_0_6)
  have c16: "ellipse_candidate ?h 1 6"
    by (simp add: ellipse_candidate_def search_candidate_def tall_rows tall_profile tall_min
        arange_6 tall_fits_1_6)
  have rows1: "scan_rows [((0, 0), (0 :: real, 1 :: real))] = [0]"
    by (simp add: scan_rows_def hull_ys_def arange_def)
  have prof1: "profile_rows [((0, 0), (0 :: real, 1 :: real))] = [0]"
    by (simp add: profile_rows_def rows1 profile_radius_at_def get_scan_limits_at_y_def Let_def)
  have z: "calculate_max_centered_ellipse [((0, 0), (0, 1))] (1 / 2) = (0, 0, 0)"
    using max_centered_ellipse_result[of "[((0, 0), (0, 1))]", THEN conjunct2, THEN conjunct2]
    by (simp add: rows1 prof1)
  show ?thesis
    by (intro conjI) (rule ne tall_ellipse c02 c06 c16 c' walls_ellipse z)+
qed

end
